theory Spec2Isabelle
  imports Complex_Main "HOL-Library.Word"
begin

unbundle bit_operations_syntax

section \<open>JavaScript numbers\<close>

text \<open>
  The program is JavaScript/TypeScript: every quantity is a \<open>number\<close>. A number is
  modelled as a real, one of the two infinities, or NaN. The sign of zero is not modelled,
  and \<open>Num r\<close> stands for the exact value \<open>r\<close>: the operators of this section do not
  round to a double. (The playback functions, whose results turn on that rounding, take
  their arithmetic as a parameter: section \<open>playback.js\<close> below.)
  Each operator below is the total function the language defines on these values.
\<close>

datatype number = Num real | PInf | NInf | NaN

text \<open>ToInt32, applied by \<open>&\<close>, \<open>|\<close>, \<open><<\<close> and \<open>>>\<close> to their operands: truncate towards
  zero, wrap modulo \<open>2^32\<close>; NaN and the infinities become 0.\<close>

definition toInt32 :: "number \<Rightarrow> 32 word" where
  "toInt32 v = (case v of
      Num r \<Rightarrow> word_of_int (if 0 \<le> r then \<lfloor>r\<rfloor> else \<lceil>r\<rceil>)
    | PInf \<Rightarrow> 0 | NInf \<Rightarrow> 0 | NaN \<Rightarrow> 0)"

text \<open>The result of a bitwise operator is a signed 32-bit integer.\<close>

definition ofInt32 :: "32 word \<Rightarrow> number" where
  "ofInt32 w = Num (of_int (sint w))"

subsection \<open>Arithmetic and comparison\<close>

text \<open>\<open>a + b\<close>\<close>

fun nadd :: "number \<Rightarrow> number \<Rightarrow> number" where
  "nadd (Num a) (Num b) = Num (a + b)"
| "nadd NaN _ = NaN"
| "nadd _ NaN = NaN"
| "nadd PInf NInf = NaN"
| "nadd NInf PInf = NaN"
| "nadd PInf _ = PInf"
| "nadd _ PInf = PInf"
| "nadd NInf _ = NInf"
| "nadd _ NInf = NInf"

text \<open>\<open>a - b\<close>\<close>

fun nsub :: "number \<Rightarrow> number \<Rightarrow> number" where
  "nsub (Num a) (Num b) = Num (a - b)"
| "nsub NaN _ = NaN"
| "nsub _ NaN = NaN"
| "nsub PInf PInf = NaN"
| "nsub NInf NInf = NaN"
| "nsub PInf _ = PInf"
| "nsub _ NInf = PInf"
| "nsub NInf _ = NInf"
| "nsub _ PInf = NInf"

text \<open>\<open>a * b\<close>: an infinity times zero is NaN.\<close>

fun nmul :: "number \<Rightarrow> number \<Rightarrow> number" where
  "nmul (Num a) (Num b) = Num (a * b)"
| "nmul NaN _ = NaN"
| "nmul _ NaN = NaN"
| "nmul PInf (Num b) = (if b = 0 then NaN else if 0 < b then PInf else NInf)"
| "nmul NInf (Num b) = (if b = 0 then NaN else if 0 < b then NInf else PInf)"
| "nmul (Num a) PInf = (if a = 0 then NaN else if 0 < a then PInf else NInf)"
| "nmul (Num a) NInf = (if a = 0 then NaN else if 0 < a then NInf else PInf)"
| "nmul PInf PInf = PInf"
| "nmul NInf NInf = PInf"
| "nmul PInf NInf = NInf"
| "nmul NInf PInf = NInf"

text \<open>\<open>a / b\<close>: a zero divisor is taken as \<open>+0\<close>, so \<open>r / 0\<close> is an infinity of the sign
  of \<open>r\<close>, and \<open>0 / 0\<close> is NaN.\<close>

fun ndiv :: "number \<Rightarrow> number \<Rightarrow> number" where
  "ndiv (Num a) (Num b) =
     (if b = 0 then (if a = 0 then NaN else if 0 < a then PInf else NInf) else Num (a / b))"
| "ndiv NaN _ = NaN"
| "ndiv _ NaN = NaN"
| "ndiv (Num a) PInf = Num 0"
| "ndiv (Num a) NInf = Num 0"
| "ndiv PInf (Num b) = (if 0 \<le> b then PInf else NInf)"
| "ndiv NInf (Num b) = (if 0 \<le> b then NInf else PInf)"
| "ndiv PInf _ = NaN"
| "ndiv NInf _ = NaN"

text \<open>\<open>a < b\<close>: false as soon as an operand is NaN. \<open>a >= b\<close> is \<open>nle b a\<close>,
  \<open>a > b\<close> is \<open>nlt b a\<close>.\<close>

fun nlt :: "number \<Rightarrow> number \<Rightarrow> bool" where
  "nlt (Num a) (Num b) = (a < b)"
| "nlt NaN _ = False"
| "nlt _ NaN = False"
| "nlt _ NInf = False"
| "nlt PInf _ = False"
| "nlt NInf _ = True"
| "nlt _ PInf = True"

fun nle :: "number \<Rightarrow> number \<Rightarrow> bool" where
  "nle (Num a) (Num b) = (a \<le> b)"
| "nle NaN _ = False"
| "nle _ NaN = False"
| "nle NInf _ = True"
| "nle _ PInf = True"
| "nle _ NInf = False"
| "nle PInf _ = False"

text \<open>\<open>a === b\<close> on numbers: NaN equals nothing, itself included.\<close>

definition strictEq :: "number \<Rightarrow> number \<Rightarrow> bool" where
  "strictEq a b = (a \<noteq> NaN \<and> a = b)"

text \<open>\<open>!a\<close> on a number: true for 0 and NaN.\<close>

definition falsy :: "number \<Rightarrow> bool" where
  "falsy a = (a = Num 0 \<or> a = NaN)"

subsection \<open>The Math object\<close>

definition Math_min :: "number \<Rightarrow> number \<Rightarrow> number" where
  "Math_min a b = (if a = NaN \<or> b = NaN then NaN else if nle a b then a else b)"

definition Math_max :: "number \<Rightarrow> number \<Rightarrow> number" where
  "Math_max a b = (if a = NaN \<or> b = NaN then NaN else if nle a b then b else a)"

fun Math_floor :: "number \<Rightarrow> number" where
  "Math_floor (Num r) = Num (of_int \<lfloor>r\<rfloor>)"
| "Math_floor v = v"

fun Math_ceil :: "number \<Rightarrow> number" where
  "Math_ceil (Num r) = Num (of_int \<lceil>r\<rceil>)"
| "Math_ceil v = v"

text \<open>\<open>Math.round\<close> rounds to the nearest integer, a tie towards \<open>+\<infinity>\<close>:
  \<open>\<lfloor>r + 1/2\<rfloor>\<close>, which is \<^const>\<open>round\<close>.\<close>

fun Math_round :: "number \<Rightarrow> number" where
  "Math_round (Num r) = Num (of_int (round r))"
| "Math_round v = v"

fun Math_sqrt :: "number \<Rightarrow> number" where
  "Math_sqrt (Num r) = (if r < 0 then NaN else Num (sqrt r))"
| "Math_sqrt PInf = PInf"
| "Math_sqrt v = NaN"

fun Math_log2 :: "number \<Rightarrow> number" where
  "Math_log2 (Num r) = (if r < 0 then NaN else if r = 0 then NInf else Num (log 2 r))"
| "Math_log2 PInf = PInf"
| "Math_log2 v = NaN"

text \<open>\<open>Math.pow(2, e)\<close>\<close>

fun Math_pow2 :: "number \<Rightarrow> number" where
  "Math_pow2 (Num e) = Num (2 powr e)"
| "Math_pow2 PInf = PInf"
| "Math_pow2 NInf = Num 0"
| "Math_pow2 NaN = NaN"

section \<open>z-order.js: Morton order\<close>

text \<open>
  \<^verbatim>\<open>for (let i = 0; i < 16; i++) z |= ((x & (1 << i)) << i) | ((y & (1 << i)) << (i + 1));\<close>
  on the 32-bit values the operators work on.
\<close>

function interleave_loop :: "nat \<Rightarrow> 32 word \<Rightarrow> 32 word \<Rightarrow> 32 word \<Rightarrow> 32 word" where
  "interleave_loop i x y z =
     (if i < 16
      then interleave_loop (Suc i) x y
             (z OR (push_bit i (x AND push_bit i 1) OR push_bit (i + 1) (y AND push_bit i 1)))
      else z)"
  by pat_completeness auto
termination
  by (relation "measure (\<lambda>(i, x, y, z). 16 - i)") auto

declare interleave_loop.simps [simp del]

definition interleave :: "number \<Rightarrow> number \<Rightarrow> number" where
  "interleave x y = ofInt32 (interleave_loop 0 (toInt32 x) (toInt32 y) 0)"

record Coordinates =
  x :: int
  y :: int

text \<open>
  \<^verbatim>\<open>x |= (index & (1 << (2 * i))) >> i;  y |= (index & (1 << (2 * i + 1))) >> (i + 1);\<close>
  where \<open>>>\<close> is the sign-propagating shift.
\<close>

function getZOrderCoordinates_loop ::
  "nat \<Rightarrow> 32 word \<Rightarrow> 32 word \<Rightarrow> 32 word \<Rightarrow> 32 word \<times> 32 word" where
  "getZOrderCoordinates_loop i index xw yw =
     (if i < 16
      then getZOrderCoordinates_loop (Suc i) index
             (xw OR signed_drop_bit i (index AND push_bit (2 * i) 1))
             (yw OR signed_drop_bit (i + 1) (index AND push_bit (2 * i + 1) 1))
      else (xw, yw))"
  by pat_completeness auto
termination
  by (relation "measure (\<lambda>(i, index, xw, yw). 16 - i)") auto

declare getZOrderCoordinates_loop.simps [simp del]

text \<open>The \<open>width\<close> parameter of the source is unused (kept for API compatibility) and left out.\<close>

definition getZOrderCoordinates :: "number \<Rightarrow> Coordinates" where
  "getZOrderCoordinates index =
     (case getZOrderCoordinates_loop 0 (toInt32 index) 0 0 of
        (xw, yw) \<Rightarrow> \<lparr>x = sint xw, y = sint yw\<rparr>)"


section \<open>audio-processing: RMS power of one window\<close>

text \<open>
  \<open>audioData[i]\<close> on the Float32Array. An index that is no element of the array reads
  \<open>undefined\<close>, which the multiplication turns into NaN. The samples themselves are
  finite reals.
\<close>

definition sampleAt :: "real list \<Rightarrow> real \<Rightarrow> number" where
  "sampleAt audioData i =
     (if 0 \<le> i \<and> i = of_int \<lfloor>i\<rfloor> \<and> nat \<lfloor>i\<rfloor> < length audioData
      then Num (audioData ! nat \<lfloor>i\<rfloor>) else NaN)"

text \<open>\<^verbatim>\<open>for (let i = startSample; i < endSample; i++) sum += audioData[i] * audioData[i];\<close>\<close>

function calculateRMSPower_loop :: "real list \<Rightarrow> real \<Rightarrow> real \<Rightarrow> number \<Rightarrow> number" where
  "calculateRMSPower_loop audioData i endSample sumsq =
     (if i < endSample
      then calculateRMSPower_loop audioData (i + 1) endSample
             (nadd sumsq (nmul (sampleAt audioData i) (sampleAt audioData i)))
      else sumsq)"
  by pat_completeness auto
termination
proof (relation "measure (\<lambda>(audioData, i, endSample, sumsq). nat \<lceil>endSample - i\<rceil>)")
  show "wf (measure (\<lambda>(audioData, i, endSample, sumsq). nat \<lceil>endSample - i\<rceil>))"
    by simp
next
  fix audioData :: "real list" and i endSample :: real and sumsq :: number
  assume "i < endSample"
  then have "0 < \<lceil>endSample - i\<rceil>" by simp
  moreover have "endSample - (i + 1) = (endSample - i) - 1"
    by simp
  then have "\<lceil>endSample - (i + 1)\<rceil> = \<lceil>endSample - i\<rceil> - 1"
    by (simp only: ceiling_diff_one)
  ultimately show "((audioData, i + 1, endSample,
                     nadd sumsq (nmul (sampleAt audioData i) (sampleAt audioData i))),
                    (audioData, i, endSample, sumsq))
        \<in> measure (\<lambda>(audioData, i, endSample, sumsq). nat \<lceil>endSample - i\<rceil>)"
    by simp
qed

declare calculateRMSPower_loop.simps [simp del]

text \<open>
  When \<open>startSample\<close> or \<open>endSample\<close> is not finite the loop condition is false at once
  (lemma \<open>calculateRMSPower_no_loop\<close> below), and the sum stays 0.
\<close>

definition calculateRMSPower :: "real list \<Rightarrow> number \<Rightarrow> number \<Rightarrow> number" where
  "calculateRMSPower audioData startSample windowSize =
     (let endSample = Math_min (nadd startSample windowSize) (Num (real (length audioData)));
          actualWindowSize = nsub endSample startSample;
          sumsq = (case (startSample, endSample) of
                   (Num s, Num e) \<Rightarrow> calculateRMSPower_loop audioData s e (Num 0)
                 | _ \<Rightarrow> Num 0)
      in Math_sqrt (ndiv sumsq actualWindowSize))"

section \<open>visualization: colour mapping and canvas drawing\<close>

datatype jserror = TypeError | CanvasError

type_synonym RGBColor = "nat \<times> nat \<times> nat"
type_synonym RGBAColor = "nat \<times> nat \<times> nat \<times> nat"

text \<open>
  \<open>viridisMap\<close> is imported from \<open>constants.js\<close>, a fixed table of 256 \<open>[r, g, b]\<close> byte
  triples; it is a parameter here. \<open>viridisMap[index]\<close> is \<open>undefined\<close> unless
  \<open>index\<close> is the integer index of an entry.
\<close>

definition tableEntry :: "RGBColor list \<Rightarrow> number \<Rightarrow> RGBColor option" where
  "tableEntry viridisMap index =
     (case index of
        Num r \<Rightarrow> (if 0 \<le> r \<and> r = of_int \<lfloor>r\<rfloor> \<and> nat \<lfloor>r\<rfloor> < length viridisMap
                  then Some (viridisMap ! nat \<lfloor>r\<rfloor>) else None)
      | _ \<Rightarrow> None)"

text \<open>\<open>const [r, g, b] = e; return [r, g, b, 255];\<close> Destructuring \<open>undefined\<close> throws.\<close>

definition rgba :: "RGBColor option \<Rightarrow> jserror + RGBAColor" where
  "rgba e = (case e of None \<Rightarrow> Inl TypeError | Some (r, g, b) \<Rightarrow> Inr (r, g, b, 255))"

definition powerToColor ::
  "RGBColor list \<Rightarrow> number \<Rightarrow> number \<Rightarrow> number \<Rightarrow> jserror + RGBAColor" where
  "powerToColor viridisMap powerValue minPower maxPower =
     (if strictEq minPower maxPower
      then rgba (tableEntry viridisMap (Num 128))
      else let normalized = ndiv (nsub powerValue minPower) (nsub maxPower minPower);
               index = Math_floor (nmul (Math_max (Num 0) (Math_min (Num 1) normalized)) (Num 255))
           in rgba (tableEntry viridisMap index))"


subsection \<open>Image data\<close>

text \<open>
  The \<open>data\<close> of an ImageData is a Uint8ClampedArray of four bytes per pixel. The host's
  \<open>createImageData(sw, sh)\<close> takes two 32-bit integers: it throws when an argument is
  not finite or, truncated, is zero or leaves that range; otherwise the data is transparent
  black, \<open>|sw|\<close> by \<open>|sh|\<close> pixels.
\<close>

definition createImageData :: "number \<Rightarrow> number \<Rightarrow> jserror + nat list" where
  "createImageData sw sh =
     (case (sw, sh) of
        (Num a, Num b) \<Rightarrow>
          (let w = (if 0 \<le> a then \<lfloor>a\<rfloor> else \<lceil>a\<rceil>); h = (if 0 \<le> b then \<lfloor>b\<rfloor> else \<lceil>b\<rceil>)
           in if w = 0 \<or> h = 0 \<or> 2 ^ 31 \<le> \<bar>w\<bar> \<or> 2 ^ 31 \<le> \<bar>h\<bar> then Inl CanvasError
              else Inr (replicate (4 * nat \<bar>w\<bar> * nat \<bar>h\<bar>) 0))
      | _ \<Rightarrow> Inl CanvasError)"

text \<open>Storing a number in a clamped byte: NaN is 0, the rest is clamped to 0..255 and
  rounded to the nearest integer, a tie to the even one.\<close>

definition toUint8Clamp :: "number \<Rightarrow> nat" where
  "toUint8Clamp v =
     (case v of
        Num r \<Rightarrow> (if r \<le> 0 then 0 else if 255 \<le> r then 255
                  else let f = \<lfloor>r\<rfloor> in
                       if r - of_int f < 1 / 2 then nat f
                       else if 1 / 2 < r - of_int f then nat (f + 1)
                       else if even f then nat f else nat (f + 1))
      | PInf \<Rightarrow> 255 | NInf \<Rightarrow> 0 | NaN \<Rightarrow> 0)"

text \<open>\<open>imageData.data[k] = v\<close>: a typed array ignores a write whose index is not one of its
  elements (negative, fractional, beyond the end, not finite).\<close>

definition setByte :: "nat list \<Rightarrow> number \<Rightarrow> number \<Rightarrow> nat list" where
  "setByte d k v =
     (case k of
        Num r \<Rightarrow> (if 0 \<le> r \<and> r = of_int \<lfloor>r\<rfloor> \<and> nat \<lfloor>r\<rfloor> < length d
                  then d[nat \<lfloor>r\<rfloor> := toUint8Clamp v] else d)
      | _ \<Rightarrow> d)"

text \<open>\<^verbatim>\<open>for (let i = 0; i < imageData.data.length; i += 4) imageData.data[i + 3] = 255;\<close>\<close>

function clearAlpha_loop :: "nat \<Rightarrow> nat \<Rightarrow> nat list \<Rightarrow> nat list" where
  "clearAlpha_loop i n d =
     (if i < n then clearAlpha_loop (i + 4) n (setByte d (Num (real (i + 3))) (Num 255)) else d)"
  by pat_completeness auto
termination
  by (relation "measure (\<lambda>(i, n, d). n - i)") auto

declare clearAlpha_loop.simps [simp del]

text \<open>
  The body both passes over the windows share (\<open>processMonoMode\<close>, and the mono branch of
  \<open>redrawCanvas\<close>):
  \<^verbatim>\<open>
  const { x, y } = getZOrderCoordinates(index, canvasWidth);
  if (x < canvasWidth && y < canvasHeight) {
      const color = powerToColor(power, minPower, maxPower);
      const pixelIndex = (y * canvasWidth + x) * 4;
      imageData.data[pixelIndex] = color[0];  ...  imageData.data[pixelIndex + 3] = color[3];
  }\<close>
\<close>

definition pixelIndexOf :: "Coordinates \<Rightarrow> number \<Rightarrow> number" where
  "pixelIndexOf c canvasWidth =
     nmul (nadd (nmul (Num (of_int (y c))) canvasWidth) (Num (of_int (x c)))) (Num 4)"

definition onCanvas :: "Coordinates \<Rightarrow> number \<Rightarrow> number \<Rightarrow> bool" where
  "onCanvas c canvasWidth canvasHeight =
     (nlt (Num (of_int (x c))) canvasWidth \<and> nlt (Num (of_int (y c))) canvasHeight)"

definition plotMono ::
  "RGBColor list \<Rightarrow> number \<Rightarrow> number \<Rightarrow> number \<Rightarrow> number \<Rightarrow> number \<Rightarrow> number \<Rightarrow> nat list
     \<Rightarrow> jserror + nat list" where
  "plotMono viridisMap powerValue minPower maxPower index canvasWidth canvasHeight imageData =
     (let c = getZOrderCoordinates index
      in if onCanvas c canvasWidth canvasHeight
         then (case powerToColor viridisMap powerValue minPower maxPower of
                 Inl e \<Rightarrow> Inl e
               | Inr (r, g, b, a) \<Rightarrow>
                   let pixelIndex = pixelIndexOf c canvasWidth
                   in Inr (setByte
                            (setByte
                              (setByte
                                (setByte imageData pixelIndex (Num (real r)))
                                (nadd pixelIndex (Num 1)) (Num (real g)))
                              (nadd pixelIndex (Num 2)) (Num (real b)))
                            (nadd pixelIndex (Num 3)) (Num (real a))))
         else Inr imageData)"

text \<open>The three frequency bands, for the powers, their maxima and the filtered signals.\<close>

record 'a Bands =
  low :: 'a
  mid :: 'a
  high :: 'a

text \<open>\<open>a[i]\<close> in arithmetic: a missing element is \<open>undefined\<close>, NaN in a division.\<close>

definition numAt :: "number list \<Rightarrow> nat \<Rightarrow> number" where
  "numAt a i = (if i < length a then a ! i else NaN)"

text \<open>
  The body of the RGB branch of \<open>redrawCanvas\<close>:
  \<^verbatim>\<open>
  if (x < cachedCanvasWidth && y < cachedCanvasHeight) {
      const pixelIndex = (y * cachedCanvasWidth + x) * 4;
      const normalizedLow = Math.min(1, cachedRGBPowers.low[i] / maxPowerRGB.low);  ...
      imageData.data[pixelIndex] = Math.floor(normalizedLow * 255);  ...
      imageData.data[pixelIndex + 3] = 255;
  }\<close>
\<close>

definition plotRGB ::
  "number \<Rightarrow> number \<Rightarrow> number \<Rightarrow> number Bands \<Rightarrow> number \<Rightarrow> number \<Rightarrow> number \<Rightarrow> nat list
     \<Rightarrow> nat list" where
  "plotRGB lowPower midPower highPower maxRGB index canvasWidth canvasHeight imageData =
     (let c = getZOrderCoordinates index
      in if onCanvas c canvasWidth canvasHeight
         then let pixelIndex = pixelIndexOf c canvasWidth;
                  normalizedLow = Math_min (Num 1) (ndiv lowPower (low maxRGB));
                  normalizedMid = Math_min (Num 1) (ndiv midPower (mid maxRGB));
                  normalizedHigh = Math_min (Num 1) (ndiv highPower (high maxRGB))
              in setByte
                   (setByte
                     (setByte
                       (setByte imageData pixelIndex (Math_floor (nmul normalizedLow (Num 255))))
                       (nadd pixelIndex (Num 1)) (Math_floor (nmul normalizedMid (Num 255))))
                     (nadd pixelIndex (Num 2)) (Math_floor (nmul normalizedHigh (Num 255))))
                   (nadd pixelIndex (Num 3)) (Num 255)
         else imageData)"


section \<open>Application state (types.ts)\<close>

datatype VizMode = Mono | Rgb

text \<open>Of the decoded AudioBuffer the program reads the sample rate and channel 0.\<close>

record AudioBuffer =
  sampleRate :: real
  channelData :: "real list"

record AppState =
  audioBuffer :: "AudioBuffer option"
  isProcessing :: bool
  cachedPowers :: "number list option"
  cachedRGBPowers :: "number list Bands option"
  cachedCanvasWidth :: number
  cachedCanvasHeight :: number
  cachedSamplesPerBeat :: number
  cachedVizMode :: VizMode
  maxPowerMono :: number
  maxPowerRGB :: "number Bands"

text \<open>What the functions below read and write: the application state and the image data
  last put on the canvas by \<open>putImageData\<close>. (Resizing and clearing the canvas element
  is not modelled.)\<close>

record world =
  app :: AppState
  canvasPixels :: "nat list"

datatype completion = Normal | Throws jserror

text \<open>The state the program starts in.\<close>

definition initialState :: AppState where
  "initialState =
     \<lparr>audioBuffer = None, isProcessing = False, cachedPowers = None, cachedRGBPowers = None,
      cachedCanvasWidth = Num 0, cachedCanvasHeight = Num 0, cachedSamplesPerBeat = Num 0,
      cachedVizMode = Mono, maxPowerMono = Num 1,
      maxPowerRGB = \<lparr>low = Num 1, mid = Num 1, high = Num 1\<rparr>\<rparr>"

section \<open>redrawCanvas\<close>

function redrawMono_loop ::
  "RGBColor list \<Rightarrow> number list \<Rightarrow> number \<Rightarrow> number \<Rightarrow> number \<Rightarrow> number \<Rightarrow> nat \<Rightarrow> nat list
     \<Rightarrow> jserror + nat list" where
  "redrawMono_loop viridisMap powers maxPower zOrderOffset canvasWidth canvasHeight i imageData =
     (if i < length powers
      then (case plotMono viridisMap (powers ! i) (Num 0) maxPower
                   (nadd (Num (real i)) zOrderOffset) canvasWidth canvasHeight imageData of
              Inl e \<Rightarrow> Inl e
            | Inr imageData' \<Rightarrow>
                redrawMono_loop viridisMap powers maxPower zOrderOffset canvasWidth canvasHeight
                  (Suc i) imageData')
      else Inr imageData)"
  by pat_completeness auto
termination
  by (relation "measure (\<lambda>(viridisMap, powers, maxPower, zOrderOffset, canvasWidth,
                           canvasHeight, i, imageData). length powers - i)") auto

declare redrawMono_loop.simps [simp del]

function redrawRGB_loop ::
  "number list Bands \<Rightarrow> number Bands \<Rightarrow> number \<Rightarrow> number \<Rightarrow> number \<Rightarrow> nat \<Rightarrow> nat list \<Rightarrow> nat list"
  where
  "redrawRGB_loop powers maxRGB zOrderOffset canvasWidth canvasHeight i imageData =
     (if i < length (low powers)
      then redrawRGB_loop powers maxRGB zOrderOffset canvasWidth canvasHeight (Suc i)
             (plotRGB (numAt (low powers) i) (numAt (mid powers) i) (numAt (high powers) i) maxRGB
                (nadd (Num (real i)) zOrderOffset) canvasWidth canvasHeight imageData)
      else imageData)"
  by pat_completeness auto
termination
  by (relation "measure (\<lambda>(powers, maxRGB, zOrderOffset, canvasWidth, canvasHeight, i,
                           imageData). length (low powers) - i)") auto

declare redrawRGB_loop.simps [simp del]

text \<open>
  \<open>redrawCanvas(state, canvas, zOrderOffset)\<close>, with a 2D context available. An exception
  leaves before \<open>putImageData\<close>.
\<close>

definition redrawCanvas :: "RGBColor list \<Rightarrow> number \<Rightarrow> world \<Rightarrow> completion \<times> world" where
  "redrawCanvas viridisMap zOrderOffset w =
     (let st = app w
      in if cachedPowers st = None \<and> cachedRGBPowers st = None then (Normal, w)
         else (case createImageData (cachedCanvasWidth st) (cachedCanvasHeight st) of
                 Inl e \<Rightarrow> (Throws e, w)
               | Inr blank \<Rightarrow>
                   let imageData = clearAlpha_loop 0 (length blank) blank
                   in (case (if cachedVizMode st = Mono then cachedPowers st else None) of
                         Some powers \<Rightarrow>
                           (case redrawMono_loop viridisMap powers (maxPowerMono st) zOrderOffset
                                   (cachedCanvasWidth st) (cachedCanvasHeight st) 0 imageData of
                              Inl e \<Rightarrow> (Throws e, w)
                            | Inr imageData' \<Rightarrow> (Normal, w\<lparr>canvasPixels := imageData'\<rparr>))
                       | None \<Rightarrow>
                           (case cachedRGBPowers st of
                              Some bands \<Rightarrow>
                                (Normal, w\<lparr>canvasPixels :=
                                   redrawRGB_loop bands (maxPowerRGB st) zOrderOffset
                                     (cachedCanvasWidth st) (cachedCanvasHeight st) 0 imageData\<rparr>)
                            | None \<Rightarrow> (Normal, w\<lparr>canvasPixels := imageData\<rparr>)))))"

section \<open>The processing pass (ui-controller)\<close>

text \<open>The values \<open>processAudio\<close> parses from the inputs: \<open>parseFloat\<close> of the BPM and of the
  offset in seconds, \<open>parseInt\<close> of the samples per beat and of the window size.\<close>

record Controls =
  bpmInput :: number
  samplesPerBeatInput :: number
  windowSizeInput :: number
  zOrderOffsetInput :: number

text \<open>The constants \<open>processAudio\<close> computes, each under the name of its local.\<close>

definition beatsPerSecondOf :: "number \<Rightarrow> number" where
  "beatsPerSecondOf bpm = ndiv bpm (Num 60)"

definition windowsPerSecondOf :: "number \<Rightarrow> number \<Rightarrow> number" where
  "windowsPerSecondOf bpm samplesPerBeat = nmul (beatsPerSecondOf bpm) samplesPerBeat"

definition windowIntervalSecondsOf :: "number \<Rightarrow> number \<Rightarrow> number" where
  "windowIntervalSecondsOf bpm samplesPerBeat = ndiv (Num 1) (windowsPerSecondOf bpm samplesPerBeat)"

definition windowIntervalSamplesOf :: "number \<Rightarrow> number \<Rightarrow> number \<Rightarrow> number" where
  "windowIntervalSamplesOf bpm samplesPerBeat rate =
     nmul (windowIntervalSecondsOf bpm samplesPerBeat) rate"

definition zOrderOffsetOf :: "number \<Rightarrow> number \<Rightarrow> number \<Rightarrow> number" where
  "zOrderOffsetOf zOrderOffsetSeconds bpm samplesPerBeat =
     Math_round (nmul zOrderOffsetSeconds (windowsPerSecondOf bpm samplesPerBeat))"

text \<open>\<^verbatim>\<open>Math.floor(audioLength / windowIntervalSamples)\<close>. The quotient is the exact one:
  next to an integer the double quotient of the program can fall on the other side of it,
  and the program then counts one window less or more (529200 samples at 65 BPM, one sample
  per beat and 44100 Hz: 12 windows where the exact quotient is 13).\<close>

definition totalWindowsOf :: "nat \<Rightarrow> number \<Rightarrow> number" where
  "totalWindowsOf audioLength windowIntervalSamples =
     Math_floor (ndiv (Num (real audioLength)) windowIntervalSamples)"

definition totalBitsOf :: "number \<Rightarrow> number" where
  "totalBitsOf totalWindows = Math_ceil (Math_log2 totalWindows)"

definition xBitsOf :: "number \<Rightarrow> number" where
  "xBitsOf totalBits = Math_ceil (ndiv totalBits (Num 2))"

definition yBitsOf :: "number \<Rightarrow> number" where
  "yBitsOf totalBits = Math_floor (ndiv totalBits (Num 2))"

definition canvasWidthOf :: "number \<Rightarrow> number" where
  "canvasWidthOf totalWindows = Math_pow2 (xBitsOf (totalBitsOf totalWindows))"

definition canvasHeightOf :: "number \<Rightarrow> number" where
  "canvasHeightOf totalWindows = Math_pow2 (yBitsOf (totalBitsOf totalWindows))"

text \<open>The start sample of window \<open>i\<close>, in the loop body of \<open>processMonoMode\<close> and of
  \<open>processRGBMode\<close>: \<^verbatim>\<open>const startSample = Math.round(i * windowIntervalSamples);\<close>\<close>

definition startSampleOf :: "nat \<Rightarrow> number \<Rightarrow> number" where
  "startSampleOf i windowIntervalSamples = Math_round (nmul (Num (real i)) windowIntervalSamples)"

text \<open>
  The loop of \<open>processMonoMode\<close>, \<^verbatim>\<open>for (let i = 0; i < totalWindows; i++)\<close>, over the
  powers pushed so far, the image data and the pixels shown: every 1000th window puts the
  image on the canvas. \<open>totalWindows\<close> is the number of rounds.
\<close>

function processMonoMode_loop ::
  "RGBColor list \<Rightarrow> real list \<Rightarrow> nat \<Rightarrow> number \<Rightarrow> number \<Rightarrow> number \<Rightarrow> number \<Rightarrow> number \<Rightarrow> number
     \<Rightarrow> nat \<Rightarrow> number list \<Rightarrow> nat list \<Rightarrow> nat list
     \<Rightarrow> (jserror \<times> nat list) + (number list \<times> nat list \<times> nat list)" where
  "processMonoMode_loop viridisMap audioData totalWindows windowIntervalSamples windowSize
       zOrderOffset canvasWidth canvasHeight tempMaxPower i powers imageData shown =
     (if i < totalWindows
      then (let startSample = startSampleOf i windowIntervalSamples;
                powerValue = calculateRMSPower audioData startSample windowSize
            in case plotMono viridisMap powerValue (Num 0) tempMaxPower
                      (nadd (Num (real i)) zOrderOffset) canvasWidth canvasHeight imageData of
                 Inl e \<Rightarrow> Inl (e, shown)
               | Inr imageData' \<Rightarrow>
                   processMonoMode_loop viridisMap audioData totalWindows windowIntervalSamples
                     windowSize zOrderOffset canvasWidth canvasHeight tempMaxPower (Suc i)
                     (powers @ [powerValue]) imageData'
                     (if i mod 1000 = 0 then imageData' else shown))
      else Inr (powers, imageData, shown))"
  by pat_completeness auto
termination
  by (relation "measure (\<lambda>(viridisMap, audioData, totalWindows, windowIntervalSamples,
                           windowSize, zOrderOffset, canvasWidth, canvasHeight, tempMaxPower, i,
                           powers, imageData, shown). totalWindows - i)") auto

declare processMonoMode_loop.simps [simp del]

text \<open>\<^verbatim>\<open>powers.reduce((max, p) => Math.max(max, p), 0); if (max === 0) max = 1.0;\<close>\<close>

definition finalMax :: "number list \<Rightarrow> number" where
  "finalMax powers =
     (let m = foldl (\<lambda>mx p. Math_max mx p) (Num 0) powers
      in if strictEq m (Num 0) then Num 1 else m)"

definition processMonoMode ::
  "RGBColor list \<Rightarrow> real list \<Rightarrow> nat \<Rightarrow> number \<Rightarrow> number \<Rightarrow> number \<Rightarrow> number \<Rightarrow> number \<Rightarrow> nat list
     \<Rightarrow> number \<Rightarrow> world \<Rightarrow> completion \<times> world" where
  "processMonoMode viridisMap audioData totalWindows windowIntervalSamples windowSize
       zOrderOffset canvasWidth canvasHeight imageData samplesPerBeat w =
     (case processMonoMode_loop viridisMap audioData totalWindows windowIntervalSamples windowSize
             zOrderOffset canvasWidth canvasHeight (maxPowerMono (app w)) 0 [] imageData
             (canvasPixels w) of
        Inl (e, shown) \<Rightarrow> (Throws e, w\<lparr>canvasPixels := shown\<rparr>)
      | Inr (powers, imageData', shown) \<Rightarrow>
          redrawCanvas viridisMap zOrderOffset
            \<lparr>app = (app w)\<lparr>cachedPowers := Some powers,
                             cachedRGBPowers := None,
                             cachedCanvasWidth := canvasWidth,
                             cachedCanvasHeight := canvasHeight,
                             cachedSamplesPerBeat := samplesPerBeat,
                             cachedVizMode := Mono,
                             maxPowerMono := finalMax powers\<rparr>,
             canvasPixels = shown\<rparr>)"

text \<open>The number of rounds of \<^verbatim>\<open>for (let i = 0; i < totalWindows; i++)\<close> for a
  \<open>totalWindows\<close> that is finite or NaN. (With an infinite \<open>totalWindows\<close> the canvas
  dimensions are infinite and \<open>createImageData\<close> has thrown before the loop: lemma
  \<open>createImageData_needs_windows\<close> below.)\<close>

definition windowCount :: "number \<Rightarrow> nat" where
  "windowCount totalWindows = (case totalWindows of Num r \<Rightarrow> nat \<lceil>r\<rceil> | _ \<Rightarrow> 0)"

text \<open>
  \<open>processAudio\<close> in mono mode (\<open>modeRgbInput\<close> not checked; the RGB mode first awaits the
  external band filter). Progress display and playback controls are left out. The function
  opens with
  \<^verbatim>\<open>if (state.isProcessing || !state.audioBuffer) return;
  state.isProcessing = true;\<close>
  and checks nothing else before computing.
\<close>

definition processAudio :: "RGBColor list \<Rightarrow> Controls \<Rightarrow> world \<Rightarrow> completion \<times> world" where
  "processAudio viridisMap ui w =
     (case audioBuffer (app w) of
        None \<Rightarrow> (Normal, w)
      | Some buffer \<Rightarrow>
          if isProcessing (app w) then (Normal, w)
          else
            let w1 = w\<lparr>app := (app w)\<lparr>isProcessing := True\<rparr>\<rparr>;
                bpm = bpmInput ui;
                samplesPerBeat = samplesPerBeatInput ui;
                windowSize = windowSizeInput ui;
                zOrderOffsetSeconds = zOrderOffsetInput ui;
                audioData = channelData buffer;
                windowIntervalSamples =
                  windowIntervalSamplesOf bpm samplesPerBeat (Num (sampleRate buffer));
                zOrderOffset = zOrderOffsetOf zOrderOffsetSeconds bpm samplesPerBeat;
                totalWindows = totalWindowsOf (length audioData) windowIntervalSamples;
                canvasWidth = canvasWidthOf totalWindows;
                canvasHeight = canvasHeightOf totalWindows
            in (case createImageData canvasWidth canvasHeight of
                  Inl e \<Rightarrow> (Throws e, w1)
                | Inr imageData \<Rightarrow>
                    (case processMonoMode viridisMap audioData (windowCount totalWindows)
                            windowIntervalSamples windowSize zOrderOffset canvasWidth
                            canvasHeight imageData samplesPerBeat w1 of
                       (Throws e, w2) \<Rightarrow> (Throws e, w2)
                     | (Normal, w2) \<Rightarrow>
                         (Normal, w2\<lparr>app := (app w2)\<lparr>isProcessing := False\<rparr>\<rparr>))))"

section \<open>playback.js: time and canvas position\<close>

text \<open>
  The results of the two functions below turn on the rounding of the double operations
  \<open>+\<close>, \<open>-\<close>, \<open>*\<close> and \<open>/\<close> (the interval \<open>1 / windowsPerSecond\<close> is rarely an exact
  double). These four operations of the host are a parameter of the functions: what is
  proved of the functions states what it assumes of the arithmetic, and holds for every
  arithmetic that meets it.
\<close>

record arith =
  fadd :: "number \<Rightarrow> number \<Rightarrow> number"
  fsub :: "number \<Rightarrow> number \<Rightarrow> number"
  fmul :: "number \<Rightarrow> number \<Rightarrow> number"
  fdiv :: "number \<Rightarrow> number \<Rightarrow> number"

text \<open>The operations of the first section, which do not round: they agree with the double
  operations wherever the exact result is a double.\<close>

definition exact :: arith where
  "exact = \<lparr>fadd = nadd, fsub = nsub, fmul = nmul, fdiv = ndiv\<rparr>"

text \<open>The fields of \<open>params\<close> the two functions read are passed one by one.\<close>

definition getCanvasPositionForTime ::
  "arith \<Rightarrow> number \<Rightarrow> number \<Rightarrow> number \<Rightarrow> number \<Rightarrow> number \<Rightarrow> Coordinates option" where
  "getCanvasPositionForTime ar time bpm samplesPerBeat canvasSize zOrderOffset =
     (if falsy samplesPerBeat \<or> falsy canvasSize then None
      else let beatsPerSecond = fdiv ar bpm (Num 60);
               windowsPerSecond = fmul ar beatsPerSecond samplesPerBeat;
               windowIntervalSeconds = fdiv ar (Num 1) windowsPerSecond;
               windowIndex = Math_floor (fdiv ar time windowIntervalSeconds);
               adjustedIndex = fadd ar windowIndex zOrderOffset;
               c = getZOrderCoordinates adjustedIndex
           in if nle canvasSize (Num (of_int (x c))) \<or> nle canvasSize (Num (of_int (y c)))
              then None else Some c)"

definition getTimeForCanvasClick ::
  "arith \<Rightarrow> number \<Rightarrow> number \<Rightarrow> number \<Rightarrow> number \<Rightarrow> number \<Rightarrow> number \<Rightarrow> number option" where
  "getTimeForCanvasClick ar canvasX canvasY bpm samplesPerBeat zOrderOffset audioDuration =
     (if falsy samplesPerBeat then None
      else let beatsPerSecond = fdiv ar bpm (Num 60);
               windowsPerSecond = fmul ar beatsPerSecond samplesPerBeat;
               windowIntervalSeconds = fdiv ar (Num 1) windowsPerSecond;
               zOrderIndex = interleave (Math_floor canvasX) (Math_floor canvasY);
               windowIndex = fsub ar zOrderIndex zOrderOffset;
               time = fmul ar windowIndex windowIntervalSeconds
           in if nlt time (Num 0) \<or> nlt audioDuration time then None else Some time)"


section \<open>Properties of the Morton mapping\<close>

lemma bit_interleave_x_step:
  "bit (push_bit i ((xw::32 word) AND push_bit i 1)) n \<longleftrightarrow> n < 32 \<and> n = 2 * i \<and> bit xw i"
  by (auto simp: bit_simps)

lemma bit_interleave_y_step:
  "bit (push_bit (i + 1) ((yw::32 word) AND push_bit i 1)) n \<longleftrightarrow>
     n < 32 \<and> n = 2 * i + 1 \<and> bit yw i"
proof -
  have "bit (push_bit (i + 1) (yw AND push_bit i 1)) n \<longleftrightarrow>
          i + 1 \<le> n \<and> n < 32 \<and> bit yw (n - (i + 1)) \<and> n - (i + 1) = i"
    unfolding bit_push_bit_iff bit_and_iff bit_1_iff possible_bit_word by auto
  also have "\<dots> \<longleftrightarrow> n < 32 \<and> n = 2 * i + 1 \<and> bit yw i"
    by auto
  finally show ?thesis .
qed

lemma interleave_step_cases:
  "((Z \<or> (n < 32 \<and> n = 2 * i \<and> bit xw i) \<or> (n < 32 \<and> n = 2 * i + 1 \<and> bit yw i))
      \<or> (n < 32 \<and> Suc i \<le> n div 2 \<and> (if even n then bit xw (n div 2) else bit yw (n div 2))))
   \<longleftrightarrow> Z \<or> (n < (32::nat) \<and> i \<le> n div 2 \<and>
                 (if even n then bit xw (n div 2) else bit yw (n div 2)))"
proof -
  have "i \<le> n div 2 \<longleftrightarrow> n = 2 * i \<or> n = 2 * i + 1 \<or> Suc i \<le> n div 2" by presburger
  then show ?thesis by auto
qed

lemma bit_interleave_loop:
  "bit (interleave_loop i xw yw z) n \<longleftrightarrow>
     bit z n \<or> (n < 32 \<and> i \<le> n div 2 \<and>
                 (if even n then bit xw (n div 2) else bit yw (n div 2)))"
proof (induction i xw yw z rule: interleave_loop.induct)
  case (1 i xw yw z)
  show ?case
  proof (cases "i < 16")
    case True
    have "bit (interleave_loop i xw yw z) n \<longleftrightarrow>
            bit (interleave_loop (Suc i) xw yw
              (z OR (push_bit i (xw AND push_bit i 1) OR push_bit (i + 1) (yw AND push_bit i 1)))) n"
      using True by (subst interleave_loop.simps) simp
    also have "\<dots> \<longleftrightarrow> (bit z n \<or> (n < 32 \<and> n = 2 * i \<and> bit xw i) \<or> (n < 32 \<and> n = 2 * i + 1 \<and> bit yw i))
        \<or> (n < 32 \<and> Suc i \<le> n div 2 \<and> (if even n then bit xw (n div 2) else bit yw (n div 2)))"
      unfolding "1.IH" [OF True] bit_or_iff bit_interleave_x_step bit_interleave_y_step ..
    also have "\<dots> \<longleftrightarrow> bit z n \<or> (n < 32 \<and> i \<le> n div 2 \<and>
                 (if even n then bit xw (n div 2) else bit yw (n div 2)))"
      by (rule interleave_step_cases)
    finally show ?thesis .
  next
    case False
    have "n < 32 \<Longrightarrow> n div 2 < 16" by simp
    with False show ?thesis
      by (subst interleave_loop.simps) auto
  qed
qed

lemma bit_getZ_x_step:
  assumes "i < 16"
  shows "bit (signed_drop_bit i ((index::32 word) AND push_bit (2 * i) 1)) n \<longleftrightarrow>
           n = i \<and> bit index (2 * i)"
proof -
  have "bit (signed_drop_bit i (index AND push_bit (2 * i) 1)) n \<longleftrightarrow>
          bit index (if 32 - i \<le> n \<and> n < 32 then 31 else i + n) \<and>
          (if 32 - i \<le> n \<and> n < 32 then 31 else i + n) = 2 * i \<and> 2 * i < 32"
    unfolding bit_signed_drop_bit_iff bit_and_iff bit_push_bit_iff bit_1_iff possible_bit_word
    by auto
  also have "\<dots> \<longleftrightarrow> n = i \<and> bit index (2 * i)"
    using assms by (auto simp: mult_2)
  finally show ?thesis .
qed

lemma bit_getZ_y_step:
  assumes "i < 16"
  shows "bit (signed_drop_bit (i + 1) ((index::32 word) AND push_bit (2 * i + 1) 1)) n \<longleftrightarrow>
           (n = i \<and> bit index (2 * i + 1)) \<or> (i = 15 \<and> 16 \<le> n \<and> n < 32 \<and> bit index 31)"
proof -
  have "bit (signed_drop_bit (i + 1) (index AND push_bit (2 * i + 1) 1)) n \<longleftrightarrow>
          bit index (if 32 - (i + 1) \<le> n \<and> n < 32 then 31 else (i + 1) + n) \<and>
          (if 32 - (i + 1) \<le> n \<and> n < 32 then 31 else (i + 1) + n) = 2 * i + 1 \<and> 2 * i + 1 < 32"
    unfolding bit_signed_drop_bit_iff bit_and_iff bit_push_bit_iff bit_1_iff possible_bit_word
    by auto
  also have "\<dots> \<longleftrightarrow> (n = i \<and> bit index (2 * i + 1)) \<or> (i = 15 \<and> 16 \<le> n \<and> n < 32 \<and> bit index 31)"
    using assms by (cases "32 - (i + 1) \<le> n \<and> n < 32") (auto simp: mult_2)
  finally show ?thesis .
qed

lemma bit_getZOrderCoordinates_loop:
  "i \<le> 16 \<Longrightarrow>
   (bit (fst (getZOrderCoordinates_loop i index xw yw)) n \<longleftrightarrow>
      bit xw n \<or> (i \<le> n \<and> n < 16 \<and> bit index (2 * n))) \<and>
   (bit (snd (getZOrderCoordinates_loop i index xw yw)) n \<longleftrightarrow>
      bit yw n \<or> (i \<le> n \<and> n < 16 \<and> bit index (2 * n + 1))
               \<or> (i < 16 \<and> 16 \<le> n \<and> n < 32 \<and> bit index 31))"
proof (induction i index xw yw rule: getZOrderCoordinates_loop.induct)
  case (1 i index xw yw)
  show ?case
  proof (cases "i < 16")
    case True
    let ?xw = "xw OR signed_drop_bit i (index AND push_bit (2 * i) 1)"
    let ?yw = "yw OR signed_drop_bit (i + 1) (index AND push_bit (2 * i + 1) 1)"
    have unf: "getZOrderCoordinates_loop i index xw yw =
                 getZOrderCoordinates_loop (Suc i) index ?xw ?yw"
      using True by (simp add: getZOrderCoordinates_loop.simps [of i index xw yw])
    have le: "Suc i \<le> 16" using True by simp
    note IH = "1.IH" [OF True le]
    have ix: "i \<le> n \<longleftrightarrow> n = i \<or> Suc i \<le> n" by auto
    have sx: "bit ?xw n \<longleftrightarrow> bit xw n \<or> (n = i \<and> bit index (2 * i))"
      unfolding bit_or_iff bit_getZ_x_step [OF True] ..
    have sy: "bit ?yw n \<longleftrightarrow> bit yw n \<or>
        ((n = i \<and> bit index (2 * i + 1)) \<or> (i = 15 \<and> 16 \<le> n \<and> n < 32 \<and> bit index 31))"
      unfolding bit_or_iff bit_getZ_y_step [OF True] ..
    have gx: "bit (fst (getZOrderCoordinates_loop i index xw yw)) n \<longleftrightarrow>
      (bit xw n \<or> (n = i \<and> bit index (2 * i))) \<or> (Suc i \<le> n \<and> n < 16 \<and> bit index (2 * n))"
      unfolding unf using IH sx by blast
    have gy: "bit (snd (getZOrderCoordinates_loop i index xw yw)) n \<longleftrightarrow>
      (bit yw n \<or> ((n = i \<and> bit index (2 * i + 1)) \<or> (i = 15 \<and> 16 \<le> n \<and> n < 32 \<and> bit index 31)))
         \<or> (Suc i \<le> n \<and> n < 16 \<and> bit index (2 * n + 1))
         \<or> (Suc i < 16 \<and> 16 \<le> n \<and> n < 32 \<and> bit index 31)"
      unfolding unf using IH sy by blast
    have cx: "(n = i \<and> bit index (2 * i)) \<or> (Suc i \<le> n \<and> n < 16 \<and> bit index (2 * n))
        \<longleftrightarrow> (i \<le> n \<and> n < 16 \<and> bit index (2 * n))"
      using True by (cases "n = i") auto
    have cy: "(n = i \<and> bit index (2 * i + 1)) \<or> (Suc i \<le> n \<and> n < 16 \<and> bit index (2 * n + 1))
        \<longleftrightarrow> (i \<le> n \<and> n < 16 \<and> bit index (2 * n + 1))"
      using True by (cases "n = i") auto
    have cs: "(i = 15 \<and> 16 \<le> n \<and> n < 32 \<and> bit index 31) \<or> (Suc i < 16 \<and> 16 \<le> n \<and> n < 32 \<and> bit index 31)
        \<longleftrightarrow> (i < 16 \<and> 16 \<le> n \<and> n < 32 \<and> bit index 31)"
      using True by (cases "i = 15") auto
    show ?thesis
      unfolding gx gy using cx cy cs by blast
  next
    case False
    then show ?thesis
      by (auto simp add: getZOrderCoordinates_loop.simps [of i index xw yw])
  qed
qed


lemma toInt32_of_int [simp]: "toInt32 (Num (of_int k)) = word_of_int k"
  by (simp add: toInt32_def)

lemma bit_getZ_x:
  "bit (fst (getZOrderCoordinates_loop 0 index 0 0)) n \<longleftrightarrow> n < 16 \<and> bit index (2 * n)"
  using bit_getZOrderCoordinates_loop [of 0 index 0 0 n] by simp

lemma bit_getZ_y:
  "bit (snd (getZOrderCoordinates_loop 0 index 0 0)) n \<longleftrightarrow>
     (n < 16 \<and> bit index (2 * n + 1)) \<or> (16 \<le> n \<and> n < 32 \<and> bit index 31)"
  using bit_getZOrderCoordinates_loop [of 0 index 0 0 n] by simp

lemma bit_interleave_0:
  "bit (interleave_loop 0 xw yw 0) n \<longleftrightarrow>
     n < 32 \<and> (if even n then bit xw (n div 2) else bit yw (n div 2))"
  using bit_interleave_loop [of 0 xw yw 0 n] by simp

lemma interleave_loop_getZ:
  "interleave_loop 0 (fst (getZOrderCoordinates_loop 0 index 0 0))
                     (snd (getZOrderCoordinates_loop 0 index 0 0)) 0 = index"
proof (rule bit_word_eqI)
  fix n assume n: "n < LENGTH(32)"
  then have n32: "n < 32" by simp
  then have h: "n div 2 < 16" by simp
  show "bit (interleave_loop 0 (fst (getZOrderCoordinates_loop 0 index 0 0))
                     (snd (getZOrderCoordinates_loop 0 index 0 0)) 0) n = bit index n"
  proof (cases "even n")
    case True
    then have e: "2 * (n div 2) = n" by simp
    have "bit (fst (getZOrderCoordinates_loop 0 index 0 0)) (n div 2) = bit index n"
      unfolding bit_getZ_x e using h by simp
    with True n32 show ?thesis
      unfolding bit_interleave_0 by simp
  next
    case False
    then have e: "2 * (n div 2) + 1 = n" by presburger
    have "bit (snd (getZOrderCoordinates_loop 0 index 0 0)) (n div 2) = bit index n"
      unfolding bit_getZ_y e using h by simp
    with False n32 show ?thesis
      unfolding bit_interleave_0 by simp
  qed
qed

lemma toInt32_sint: "toInt32 (Num (of_int (sint w))) = w"
  unfolding toInt32_of_int by simp

lemma toInt32_signed [simp]: "toInt32 (Num (signed w)) = w"
  using toInt32_sint [of w] by simp

lemma interleave_getZOrderCoordinates:
  "interleave (Num (of_int (x (getZOrderCoordinates index))))
              (Num (of_int (y (getZOrderCoordinates index)))) = ofInt32 (toInt32 index)"
proof -
  obtain xw yw where l: "getZOrderCoordinates_loop 0 (toInt32 index) 0 0 = (xw, yw)"
    by (cases "getZOrderCoordinates_loop 0 (toInt32 index) 0 0")
  have "interleave_loop 0 xw yw 0 = toInt32 index"
    using interleave_loop_getZ [of "toInt32 index"] unfolding l by simp
  then show ?thesis
    unfolding interleave_def getZOrderCoordinates_def l prod.case Coordinates.simps toInt32_sint
    by (rule arg_cong)
qed

lemma sint_word_of_int_32:
  "- (2 ^ 31) \<le> n \<Longrightarrow> n < 2 ^ 31 \<Longrightarrow> sint (word_of_int n :: 32 word) = n"
  by (simp add: sint_sbintrunc' signed_take_bit_int_eq_self)

lemma ofInt32_toInt32_int:
  "- (2 ^ 31) \<le> n \<Longrightarrow> n < 2 ^ 31 \<Longrightarrow> ofInt32 (toInt32 (Num (of_int n))) = Num (of_int n)"
  by (simp add: ofInt32_def sint_word_of_int_32)

lemma morton_roundtrip_index:
  assumes "- (2 ^ 31) \<le> n" "n < 2 ^ 31"
  shows "interleave (Num (of_int (x (getZOrderCoordinates (Num (of_int n))))))
                    (Num (of_int (y (getZOrderCoordinates (Num (of_int n)))))) = Num (of_int n)"
  unfolding interleave_getZOrderCoordinates by (rule ofInt32_toInt32_int [OF assms])

lemma getZ_loop_interleave:
  assumes xb: "\<And>n. bit xw n \<Longrightarrow> n < 16" and yb: "\<And>n. bit yw n \<Longrightarrow> n < 15"
  shows "getZOrderCoordinates_loop 0 (interleave_loop 0 xw yw 0) 0 0 = (xw, yw)"
proof -
  let ?z = "interleave_loop 0 xw yw 0"
  have "fst (getZOrderCoordinates_loop 0 ?z 0 0) = xw"
  proof (rule bit_word_eqI)
    fix n assume "n < LENGTH(32)"
    show "bit (fst (getZOrderCoordinates_loop 0 ?z 0 0)) n = bit xw n"
      using xb [of n] by (auto simp: bit_getZ_x bit_interleave_0)
  qed
  moreover have "snd (getZOrderCoordinates_loop 0 ?z 0 0) = yw"
  proof (rule bit_word_eqI)
    fix n assume "n < LENGTH(32)"
    have "\<not> bit yw 15" using yb [of 15] by auto
    then show "bit (snd (getZOrderCoordinates_loop 0 ?z 0 0)) n = bit yw n"
      using yb [of n] by (auto simp: bit_getZ_y bit_interleave_0)
  qed
  ultimately show ?thesis by (simp add: prod_eq_iff)
qed

lemma bit_word_of_int_bound:
  assumes "0 \<le> k" "k < 2 ^ m" "bit (word_of_int k :: 32 word) n"
  shows "n < m"
proof -
  have "take_bit m k = k" using assms by (simp add: take_bit_int_eq_self)
  moreover have "bit k n" using assms(3) by (simp add: bit_word_of_int_iff)
  ultimately have "bit (take_bit m k) n" by simp
  then show ?thesis by (simp add: bit_take_bit_iff)
qed

lemma getZOrderCoordinates_interleave:
  assumes "0 \<le> cx" "cx < 2 ^ 16" "0 \<le> cy" "cy < 2 ^ 15"
  shows "getZOrderCoordinates (interleave (Num (of_int cx)) (Num (of_int cy))) = \<lparr>x = cx, y = cy\<rparr>"
proof -
  let ?xw = "word_of_int cx :: 32 word" and ?yw = "word_of_int cy :: 32 word"
  have rt: "getZOrderCoordinates_loop 0 (interleave_loop 0 ?xw ?yw 0) 0 0 = (?xw, ?yw)"
  proof (rule getZ_loop_interleave)
    fix n assume "bit ?xw n"
    then show "n < 16" using bit_word_of_int_bound [of cx 16 n] assms by simp
  next
    fix n assume "bit ?yw n"
    then show "n < 15" using bit_word_of_int_bound [of cy 15 n] assms by simp
  qed
  have ti: "toInt32 (ofInt32 w) = w" for w
    unfolding ofInt32_def by (rule toInt32_sint)
  have sx: "sint ?xw = cx" using assms by (intro sint_word_of_int_32) auto
  have sy: "sint ?yw = cy" using assms by (intro sint_word_of_int_32) auto
  show ?thesis
    by (simp add: getZOrderCoordinates_def interleave_def ti rt sx sy)
qed

text \<open>
  Claim C1 (Morton round-trip). Interleaving the pair returned by
  \<open>getZOrderCoordinates n\<close> gives \<open>n\<close> back for every integer \<open>n\<close> of the signed 32-bit
  range (lemma \<open>morton_roundtrip_index\<close>), and
  \<open>getZOrderCoordinates (interleave x y)\<close> is \<open>(x, y)\<close> for \<open>x < 2^16\<close> and \<open>y < 2^15\<close>
  (lemma \<open>getZOrderCoordinates_interleave\<close>). For \<open>y \<ge> 2^15\<close> the second round-trip
  fails: bit 15 of \<open>y\<close> lands on the sign bit, \<open>interleave\<close> returns a negative index,
  and the sign-propagating shift of \<open>getZOrderCoordinates\<close> fills the upper half of \<open>y\<close>.
  At \<open>(0, 32768)\<close> the index is \<open>-2147483648\<close> and the pair read back is \<open>(0, -32768)\<close>.
\<close>

theorem interleave_sign_bit_roundtrip_fails:
  "interleave (Num 0) (Num 32768) = Num (- 2147483648) \<and>
   getZOrderCoordinates (interleave (Num 0) (Num 32768)) = \<lparr>x = 0, y = - 32768\<rparr> \<and>
   getZOrderCoordinates (interleave (Num 0) (Num 32768)) \<noteq> \<lparr>x = 0, y = 32768\<rparr>"
  by (simp add: getZOrderCoordinates_def interleave_def toInt32_def ofInt32_def
        interleave_loop.simps getZOrderCoordinates_loop.simps)

section \<open>Canvas sizing\<close>

lemma Math_pow2_nat: "Math_pow2 (Num (real k)) = Num (2 ^ k)"
  by (simp add: powr_realpow)

lemma ceiling_half_nat: "\<lceil>real k / 2\<rceil> = int ((k + 1) div 2)"
proof (rule ceiling_unique)
  show "real_of_int (int ((k + 1) div 2)) - 1 < real k / 2"
    by (cases "even k") (auto elim!: evenE oddE)
  show "real k / 2 \<le> real_of_int (int ((k + 1) div 2))"
    by (cases "even k") (auto elim!: evenE oddE)
qed

lemma floor_half_nat: "\<lfloor>real k / 2\<rfloor> = int (k div 2)"
proof (rule floor_unique)
  show "real_of_int (int (k div 2)) \<le> real k / 2"
    by (cases "even k") (auto elim!: evenE oddE)
  show "real k / 2 < real_of_int (int (k div 2)) + 1"
    by (cases "even k") (auto elim!: evenE oddE)
qed

lemma xBitsOf_nat: "xBitsOf (Num (real k)) = Num (real ((k + 1) div 2))"
  by (simp add: xBitsOf_def ceiling_half_nat)

lemma yBitsOf_nat: "yBitsOf (Num (real k)) = Num (real (k div 2))"
  by (simp add: yBitsOf_def floor_half_nat)

lemma ceiling_log2_nat:
  assumes "0 < n" "n \<le> 2 ^ k" "k = 0 \<or> 2 ^ (k - 1) < n"
  shows "\<lceil>log 2 (real n)\<rceil> = int k"
proof (rule ceiling_unique)
  show "log 2 (real n) \<le> real_of_int (int k)"
    using log2_of_power_le [OF assms(2) assms(1)] by simp
  show "real_of_int (int k) - 1 < log 2 (real n)"
  proof (cases "k = 0")
    case True
    have "0 \<le> log 2 (real n)" using assms(1) by simp
    with True show ?thesis by simp
  next
    case False
    with assms(3) have "2 ^ (k - 1) < n" by simp
    then have "real (k - 1) < log 2 (real n)" by (rule less_log2_of_power)
    with False show ?thesis by (simp add: of_nat_diff)
  qed
qed

lemma totalBitsOf_nat:
  assumes "0 < n" "n \<le> 2 ^ k" "k = 0 \<or> 2 ^ (k - 1) < n"
  shows "totalBitsOf (Num (real n)) = Num (real k)"
  using assms(1) by (simp add: totalBitsOf_def ceiling_log2_nat [OF assms])

lemma ex_least_pow2:
  assumes "0 < (n::nat)"
  shows "\<exists>k. n \<le> 2 ^ k \<and> (k = 0 \<or> 2 ^ (k - 1) < n)"
proof -
  define k where "k = (LEAST k. n \<le> 2 ^ k)"
  have ex: "n \<le> 2 ^ n" by simp
  have le: "n \<le> 2 ^ k" unfolding k_def using ex by (rule LeastI)
  have "2 ^ (k - 1) < n" if "k \<noteq> 0"
  proof (rule ccontr)
    assume "\<not> 2 ^ (k - 1) < n"
    then have "n \<le> 2 ^ (k - 1)" by simp
    then have "k \<le> k - 1" unfolding k_def by (rule Least_le)
    with that show False by simp
  qed
  with le show ?thesis by auto
qed

lemma canvas_sizing_general:
  assumes "1 \<le> n"
  shows "\<exists>a b. canvasWidthOf (Num (real n)) = Num (2 ^ a) \<and>
               canvasHeightOf (Num (real n)) = Num (2 ^ b) \<and>
               n \<le> 2 ^ a * 2 ^ b \<and>
               (\<forall>k. n \<le> 2 ^ k \<longrightarrow> (2::nat) ^ a * 2 ^ b \<le> 2 ^ k)"
proof -
  from assms have pos: "0 < n" by simp
  from ex_least_pow2 [OF pos] obtain t where t: "n \<le> 2 ^ t" "t = 0 \<or> 2 ^ (t - 1) < n"
    by blast
  have tb: "totalBitsOf (Num (real n)) = Num (real t)"
    by (rule totalBitsOf_nat [OF pos t])
  have split: "(t + 1) div 2 + t div 2 = t" by presburger
  have w: "canvasWidthOf (Num (real n)) = Num (2 ^ ((t + 1) div 2))"
    unfolding canvasWidthOf_def tb xBitsOf_nat Math_pow2_nat ..
  have h: "canvasHeightOf (Num (real n)) = Num (2 ^ (t div 2))"
    unfolding canvasHeightOf_def tb yBitsOf_nat Math_pow2_nat ..
  have prod: "(2::nat) ^ ((t + 1) div 2) * 2 ^ (t div 2) = 2 ^ t"
    unfolding power_add [symmetric] split ..
  have least: "(2::nat) ^ t \<le> 2 ^ k" if "n \<le> 2 ^ k" for k
  proof (cases "t = 0")
    case True
    then show ?thesis by simp
  next
    case False
    with t(2) have lt: "2 ^ (t - 1) < n" by simp
    from lt that have "(2::nat) ^ (t - 1) < 2 ^ k" by (rule less_le_trans)
    then have "t - 1 < k" by (simp only: power_strict_increasing_iff [of "2::nat"] one_less_numeral_iff semiring_norm)
    then have "t \<le> k" by simp
    then show ?thesis by simp
  qed
  show ?thesis
    using w h t(1) least unfolding prod [symmetric] by blast
qed

text \<open>
  Claim C3 (canvas sizing policy). For every \<open>totalWindows \<ge> 1\<close> the width and the
  height that \<open>processAudio\<close> computes are powers of two whose product is at least
  \<open>totalWindows\<close> and is the least power of two that is; 1000 windows give 32 by 32,
  1025 windows give 64 by 32.
\<close>

theorem canvas_sizing_policy:
  "(1 \<le> n \<longrightarrow>
      (\<exists>a b. canvasWidthOf (Num (real n)) = Num (2 ^ a) \<and>
             canvasHeightOf (Num (real n)) = Num (2 ^ b) \<and>
             n \<le> 2 ^ a * 2 ^ b \<and>
             (\<forall>k. n \<le> 2 ^ k \<longrightarrow> (2::nat) ^ a * 2 ^ b \<le> 2 ^ k))) \<and>
   canvasWidthOf (Num 1000) = Num 32 \<and> canvasHeightOf (Num 1000) = Num 32 \<and>
   canvasWidthOf (Num 1025) = Num 64 \<and> canvasHeightOf (Num 1025) = Num 32"
proof -
  have "totalBitsOf (Num (real 1000)) = Num (real 10)"
    by (rule totalBitsOf_nat) simp_all
  then have tb1: "totalBitsOf (Num 1000) = Num (real 10)" by simp
  have "totalBitsOf (Num (real 1025)) = Num (real 11)"
    by (rule totalBitsOf_nat) simp_all
  then have tb2: "totalBitsOf (Num 1025) = Num (real 11)" by simp
  have e1: "canvasWidthOf (Num 1000) = Num 32 \<and> canvasHeightOf (Num 1000) = Num 32"
    unfolding canvasWidthOf_def canvasHeightOf_def tb1 xBitsOf_nat yBitsOf_nat Math_pow2_nat
    by simp
  have e2: "canvasWidthOf (Num 1025) = Num 64 \<and> canvasHeightOf (Num 1025) = Num 32"
    unfolding canvasWidthOf_def canvasHeightOf_def tb2 xBitsOf_nat yBitsOf_nat Math_pow2_nat
    by simp
  show ?thesis
    using canvas_sizing_general [of n] e1 e2 by blast
qed

theorem canvas_sizing_policy_witness:
  "(1::nat) \<le> 1000 \<and>
   (\<exists>a b. canvasWidthOf (Num (real (1000::nat))) = Num (2 ^ a) \<and>
          canvasHeightOf (Num (real (1000::nat))) = Num (2 ^ b) \<and>
          (1000::nat) \<le> 2 ^ a * 2 ^ b \<and> (2::nat) ^ a * 2 ^ b \<le> 2 ^ 10)"
proof -
  have h: "(1::nat) \<le> 1000" by simp
  have k: "(1000::nat) \<le> 2 ^ 10" by simp
  from canvas_sizing_policy [of 1000] h obtain a b where
    ab: "canvasWidthOf (Num (real (1000::nat))) = Num (2 ^ a)"
        "canvasHeightOf (Num (real (1000::nat))) = Num (2 ^ b)"
        "(1000::nat) \<le> 2 ^ a * 2 ^ b"
        "\<forall>k. (1000::nat) \<le> 2 ^ k \<longrightarrow> (2::nat) ^ a * 2 ^ b \<le> 2 ^ k"
    by blast
  from ab(4) k have "(2::nat) ^ a * 2 ^ b \<le> 2 ^ 10" by blast
  with h ab(1-3) show ?thesis by blast
qed


section \<open>RMS power\<close>

lemma sampleAt_nat: "i < length audioData \<Longrightarrow> sampleAt audioData (real i) = Num (audioData ! i)"
  by (simp add: sampleAt_def)

lemma calculateRMSPower_no_loop:
  assumes "\<not> (\<exists>s e. startSample = Num s \<and>
                 Math_min (nadd startSample windowSize) (Num (real n)) = Num e)"
  shows "\<not> nlt startSample (Math_min (nadd startSample windowSize) (Num (real n)))"
  using assms by (cases startSample; cases windowSize) (auto simp: Math_min_def)

lemma calculateRMSPower_loop_sum:
  "a \<le> b \<Longrightarrow> b \<le> length audioData \<Longrightarrow>
   calculateRMSPower_loop audioData (real a) (real b) (Num acc) =
     Num (acc + (\<Sum>i = a..<b. (audioData ! i)\<^sup>2))"
proof (induction "b - a" arbitrary: a acc)
  case 0
  then have "a = b" by simp
  then show ?case
    by (simp add: calculateRMSPower_loop.simps [of audioData "real b" "real b"])
next
  case (Suc d)
  then have lt: "a < b" and d: "d = b - Suc a" and le: "Suc a \<le> b" by simp_all
  have a: "a < length audioData" using lt Suc.prems by simp
  have step: "real a + 1 = real (Suc a)" by simp
  have "calculateRMSPower_loop audioData (real a) (real b) (Num acc) =
          calculateRMSPower_loop audioData (real (Suc a)) (real b)
            (Num (acc + (audioData ! a) * (audioData ! a)))"
    unfolding step [symmetric]
    using lt by (simp add: calculateRMSPower_loop.simps [of audioData "real a" "real b"]
                   sampleAt_nat [OF a])
  also have "\<dots> = Num ((acc + (audioData ! a) * (audioData ! a)) +
                      (\<Sum>i = Suc a..<b. (audioData ! i)\<^sup>2))"
    by (rule Suc.hyps(1) [OF d le Suc.prems(2)])
  also have "\<dots> = Num (acc + (\<Sum>i = a..<b. (audioData ! i)\<^sup>2))"
    using lt by (simp add: sum.atLeast_Suc_lessThan power2_eq_square)
  finally show ?case .
qed

lemma calculateRMSPower_window:
  assumes s: "s < length audioData" and w: "0 < w"
  shows "calculateRMSPower audioData (Num (real s)) (Num (real_of_int w)) =
           Num (sqrt ((\<Sum>i = s..<min (s + nat w) (length audioData). (audioData ! i)\<^sup>2)
                        / real (min (s + nat w) (length audioData) - s)))"
proof -
  let ?e = "min (s + nat w) (length audioData)"
  have "0 < nat w" using w by simp
  then have se: "s < ?e" using s by (simp add: min_def)
  have rw: "real_of_int w = real (nat w)" using w by simp
  have endS: "Math_min (nadd (Num (real s)) (Num (real_of_int w))) (Num (real (length audioData)))
                = Num (real ?e)"
    unfolding rw by (simp add: Math_min_def min_def)
  have act: "nsub (Num (real ?e)) (Num (real s)) = Num (real (?e - s))"
    using se by (simp add: of_nat_diff)
  have loop: "calculateRMSPower_loop audioData (real s) (real ?e) (Num 0) =
                Num (\<Sum>i = s..<?e. (audioData ! i)\<^sup>2)"
    using calculateRMSPower_loop_sum [of s ?e audioData 0] se by simp
  define cnt where "cnt = ?e - s"
  have "0 < cnt" unfolding cnt_def using se by (rule iffD2 [OF zero_less_diff])
  then have "real cnt \<noteq> 0" by simp
  then have nz: "real (?e - s) \<noteq> 0" unfolding cnt_def .
  have nonneg: "\<not> (\<Sum>i = s..<?e. (audioData ! i)\<^sup>2) / real (?e - s) < 0"
    by (simp add: sum_nonneg not_less)
  show ?thesis
    unfolding calculateRMSPower_def endS Let_def act prod.case number.case loop
    using nz nonneg by simp
qed

text \<open>
  Claim C4 (RMS with truncation at the end of the buffer). For a start sample inside the
  array and a positive window size, \<open>calculateRMSPower\<close> is the square root of the mean
  of the squared samples over \<open>[startSample, min(startSample + windowSize, length))\<close>,
  the divisor being the number of samples in that range. (A start sample is an index, so a
  natural number.) With the examples of the specification, and \<open>[0, 2]\<close> from sample 1
  with window 4: one sample, result 2 (dividing by 4 would give 1).
\<close>

theorem rms_truncated_window:
  "(s < length audioData \<and> 0 < w \<longrightarrow>
      calculateRMSPower audioData (Num (real s)) (Num (real_of_int w)) =
        Num (sqrt ((\<Sum>i = s..<min (s + nat w) (length audioData). (audioData ! i)\<^sup>2)
                     / real (min (s + nat w) (length audioData) - s)))) \<and>
   calculateRMSPower [1, 1, 1, 1] (Num 0) (Num 4) = Num 1 \<and>
   calculateRMSPower [0, 0, 0, 0] (Num 0) (Num 4) = Num 0 \<and>
   calculateRMSPower [3, 4] (Num 0) (Num 2) = Num (sqrt 12.5) \<and>
   calculateRMSPower [1, 1] (Num 1) (Num 4) = Num 1 \<and>
   calculateRMSPower [0, 2] (Num 1) (Num 4) = Num 2"
proof -
  have ex: "calculateRMSPower [1, 1, 1, 1] (Num 0) (Num 4) = Num 1"
     "calculateRMSPower [0, 0, 0, 0] (Num 0) (Num 4) = Num 0"
     "calculateRMSPower [3, 4] (Num 0) (Num 2) = Num (sqrt 12.5)"
     "calculateRMSPower [1, 1] (Num 1) (Num 4) = Num 1"
     "calculateRMSPower [0, 2] (Num 1) (Num 4) = Num 2"
    by (simp_all add: calculateRMSPower_def Math_min_def calculateRMSPower_loop.simps sampleAt_def)
  show ?thesis
    using calculateRMSPower_window [of s audioData w] ex by blast
qed

theorem rms_truncated_window_witness:
  "Suc 0 < length [0, 2 :: real] \<and> (0 :: int) < 4 \<and>
   calculateRMSPower [0, 2] (Num (real (Suc 0))) (Num (real_of_int 4)) =
     Num (sqrt ((\<Sum>i = Suc 0..<min (Suc 0 + nat 4) (length [0, 2 :: real]). ([0, 2] ! i)\<^sup>2)
                  / real (min (Suc 0 + nat 4) (length [0, 2 :: real]) - Suc 0)))"
proof -
  have h: "Suc 0 < length [0, 2 :: real] \<and> (0 :: int) < 4" by simp
  with rms_truncated_window [of "Suc 0" "[0, 2]" 4] show ?thesis by blast
qed

section \<open>Colour mapping\<close>

lemma powerToColor_degenerate:
  assumes "128 < length viridisMap" "strictEq minPower maxPower"
  shows "powerToColor viridisMap powerValue minPower maxPower =
           Inr (fst (viridisMap ! 128), fst (snd (viridisMap ! 128)),
                snd (snd (viridisMap ! 128)), 255)"
  using assms by (simp add: powerToColor_def tableEntry_def rgba_def split_beta)

text \<open>
  Claim C7 (degenerate colour mapping), as stated, fails for a NaN value: with
  \<open>minPower \<noteq> maxPower\<close> the index is NaN, the table has no such entry, and destructuring
  it throws.
\<close>

theorem powerToColor_NaN_throws:
  "powerToColor (replicate 256 (68, 1, 84)) NaN (Num 0) (Num 1) = Inl TypeError"
  by (simp add: powerToColor_def strictEq_def Math_min_def Math_max_def tableEntry_def rgba_def)

text \<open>
  Claim C7, amended. When \<open>minPower === maxPower\<close>, \<open>powerToColor\<close> returns entry 128 of
  the table with alpha 255, for every power value, NaN included.
\<close>

theorem powerToColor_degenerate_range:
  "128 < length viridisMap \<and> strictEq minPower maxPower \<longrightarrow>
     (\<exists>r g b. viridisMap ! 128 = (r, g, b) \<and>
              powerToColor viridisMap powerValue minPower maxPower = Inr (r, g, b, 255))"
  using powerToColor_degenerate [of viridisMap minPower maxPower powerValue]
  by (cases "viridisMap ! 128") auto

theorem powerToColor_degenerate_range_witness:
  "128 < length (replicate 256 (68 :: nat, 1 :: nat, 84 :: nat)) \<and> strictEq (Num 0) (Num 0) \<and>
   powerToColor (replicate 256 (68, 1, 84)) NaN (Num 0) (Num 0) = Inr (68, 1, 84, 255)"
proof -
  have h: "128 < length (replicate 256 (68 :: nat, 1 :: nat, 84 :: nat)) \<and> strictEq (Num 0) (Num 0)"
    by (simp add: strictEq_def)
  with powerToColor_degenerate_range [of "replicate 256 (68, 1, 84)" "Num 0" "Num 0" NaN]
  show ?thesis by auto
qed

section \<open>Redrawing\<close>

lemma redrawCanvas_app: "app (snd (redrawCanvas viridisMap zOrderOffset w)) = app w"
  by (simp add: redrawCanvas_def Let_def split: sum.splits option.splits)

text \<open>
  Claim C6 (offset redraw purity). \<open>redrawCanvas\<close> leaves the application state as it
  was, whatever the offset and whether it returns or throws: after two redraws with two
  offsets the cached powers (mono and the three bands) and the stored maxima are those of
  before.
\<close>

theorem redraw_offset_purity:
  "app (snd (redrawCanvas viridisMap offset1 w)) = app w \<and>
   app (snd (redrawCanvas viridisMap offset2 (snd (redrawCanvas viridisMap offset1 w)))) = app w \<and>
   cachedPowers (app (snd (redrawCanvas viridisMap offset2
       (snd (redrawCanvas viridisMap offset1 w))))) = cachedPowers (app w) \<and>
   cachedRGBPowers (app (snd (redrawCanvas viridisMap offset2
       (snd (redrawCanvas viridisMap offset1 w))))) = cachedRGBPowers (app w) \<and>
   maxPowerMono (app (snd (redrawCanvas viridisMap offset2
       (snd (redrawCanvas viridisMap offset1 w))))) = maxPowerMono (app w) \<and>
   maxPowerRGB (app (snd (redrawCanvas viridisMap offset2
       (snd (redrawCanvas viridisMap offset1 w))))) = maxPowerRGB (app w)"
  by (simp only: redrawCanvas_app)

section \<open>Windows off the canvas\<close>

lemma x_getZOrderCoordinates_nonneg: "0 \<le> x (getZOrderCoordinates index)"
proof -
  let ?xw = "fst (getZOrderCoordinates_loop 0 (toInt32 index) 0 0)"
  have "\<not> bit ?xw 31" by (simp add: bit_getZ_x)
  then have "\<not> sint ?xw < 0" using bit_last_iff [of ?xw] by simp
  then have "0 \<le> sint ?xw" by simp
  then show ?thesis by (simp add: getZOrderCoordinates_def split_beta)
qed

lemma setByte_negative: "r < 0 \<Longrightarrow> setByte d (Num r) v = d"
  by (simp add: setByte_def)

lemma pixelIndexOf_negative:
  assumes "y c < 0" "x c < int W"
  shows "\<exists>r. pixelIndexOf c (Num (real W)) = Num r \<and> r + 3 < 0"
proof -
  have "y c \<le> - 1" using assms(1) by simp
  then have "y c * int W \<le> - 1 * int W" by (intro mult_right_mono) simp_all
  with assms(2) have "y c * int W + x c \<le> - 1" by simp
  then have "(y c * int W + x c) * 4 + 3 < 0" by simp
  then have "real_of_int ((y c * int W + x c) * 4 + 3) < 0" by (simp only: of_int_less_0_iff)
  then have "(real_of_int (y c) * real W + real_of_int (x c)) * 4 + 3 < 0" by simp
  then show ?thesis by (simp add: pixelIndexOf_def)
qed

lemma off_canvas_cases:
  assumes off: "\<not> (0 \<le> x c \<and> x c < int W \<and> 0 \<le> y c \<and> y c < int H)"
    and nn: "0 \<le> x c"
  shows "\<not> onCanvas c (Num (real W)) (Num (real H)) \<or> (y c < 0 \<and> x c < int W)"
proof (cases "onCanvas c (Num (real W)) (Num (real H))")
  case True
  then have "real_of_int (x c) < real W" "real_of_int (y c) < real H"
    by (simp_all add: onCanvas_def)
  then have "x c < int W" "y c < int H" by linarith+
  with off nn show ?thesis by auto
next
  case False
  then show ?thesis by simp
qed

lemma plotRGB_off_canvas:
  assumes "\<not> (0 \<le> x (getZOrderCoordinates index) \<and> x (getZOrderCoordinates index) < int W \<and>
              0 \<le> y (getZOrderCoordinates index) \<and> y (getZOrderCoordinates index) < int H)"
  shows "plotRGB lowPower midPower highPower maxRGB index (Num (real W)) (Num (real H)) imageData
           = imageData"
proof -
  let ?c = "getZOrderCoordinates index"
  from off_canvas_cases [OF assms x_getZOrderCoordinates_nonneg]
  consider "\<not> onCanvas ?c (Num (real W)) (Num (real H))" | "y ?c < 0" "x ?c < int W" by blast
  then show ?thesis
  proof cases
    case 1
    then show ?thesis by (simp add: plotRGB_def)
  next
    case 2
    from pixelIndexOf_negative [OF 2] obtain r where
      r: "pixelIndexOf ?c (Num (real W)) = Num r" "r + 3 < 0" by blast
    then have "r < 0" "r + 1 < 0" "r + 2 < 0" by simp_all
    with r show ?thesis by (simp add: plotRGB_def Let_def setByte_negative)
  qed
qed

lemma plotMono_off_canvas:
  assumes "\<not> (0 \<le> x (getZOrderCoordinates index) \<and> x (getZOrderCoordinates index) < int W \<and>
              0 \<le> y (getZOrderCoordinates index) \<and> y (getZOrderCoordinates index) < int H)"
    and "plotMono viridisMap powerValue minPower maxPower index (Num (real W)) (Num (real H)) imageData
           = Inr imageData'"
  shows "imageData' = imageData"
proof -
  let ?c = "getZOrderCoordinates index"
  from off_canvas_cases [OF assms(1) x_getZOrderCoordinates_nonneg]
  consider "\<not> onCanvas ?c (Num (real W)) (Num (real H))" | "y ?c < 0" "x ?c < int W" by blast
  then show ?thesis
  proof cases
    case 1
    with assms(2) show ?thesis by (simp add: plotMono_def)
  next
    case 2
    from pixelIndexOf_negative [OF 2] obtain r where
      r: "pixelIndexOf ?c (Num (real W)) = Num r" "r + 3 < 0" by blast
    then have "r < 0" "r + 1 < 0" "r + 2 < 0" by simp_all
    with r assms(2) show ?thesis
      by (auto simp add: plotMono_def Let_def setByte_negative split: if_splits sum.splits)
  qed
qed

lemma y_getZOrderCoordinates_negative:
  assumes "- (2 ^ 31) \<le> n" "n < 0"
  shows "y (getZOrderCoordinates (Num (real_of_int n))) < 0"
proof -
  let ?w = "word_of_int n :: 32 word"
  let ?yw = "snd (getZOrderCoordinates_loop 0 ?w 0 0)"
  have "sint ?w = n" using assms by (intro sint_word_of_int_32) simp_all
  then have "sint ?w < 0" using assms(2) by simp
  then have "bit ?w 31" using bit_last_iff [of ?w] by simp
  then have "bit ?yw 31" by (simp add: bit_getZ_y)
  then have "sint ?yw < 0" using bit_last_iff [of ?yw] by simp
  then show ?thesis by (simp add: getZOrderCoordinates_def split_beta)
qed

lemma y_getZOrderCoordinates_nonneg:
  assumes "0 \<le> n" "n < 2 ^ 31"
  shows "0 \<le> y (getZOrderCoordinates (Num (real_of_int n)))"
proof -
  let ?w = "word_of_int n :: 32 word"
  let ?yw = "snd (getZOrderCoordinates_loop 0 ?w 0 0)"
  have "sint ?w = n" using assms by (intro sint_word_of_int_32) simp_all
  then have "\<not> sint ?w < 0" using assms(1) by simp
  then have "\<not> bit ?w 31" using bit_last_iff [of ?w] by simp
  then have "\<not> bit ?yw 31" by (simp add: bit_getZ_y)
  then have "\<not> sint ?yw < 0" using bit_last_iff [of ?yw] by simp
  then show ?thesis by (simp add: getZOrderCoordinates_def split_beta)
qed

lemma plotMono_off_canvas_cases:
  assumes "\<not> (0 \<le> x (getZOrderCoordinates index) \<and> x (getZOrderCoordinates index) < int W \<and>
              0 \<le> y (getZOrderCoordinates index) \<and> y (getZOrderCoordinates index) < int H)"
  shows "plotMono viridisMap powerValue minPower maxPower index (Num (real W)) (Num (real H)) imageData
           = Inr imageData \<or>
         (\<exists>e. powerToColor viridisMap powerValue minPower maxPower = Inl e \<and>
              plotMono viridisMap powerValue minPower maxPower index (Num (real W)) (Num (real H))
                imageData = Inl e)"
proof (cases "plotMono viridisMap powerValue minPower maxPower index (Num (real W)) (Num (real H))
                imageData")
  case (Inl e)
  then have "powerToColor viridisMap powerValue minPower maxPower = Inl e"
    by (auto simp add: plotMono_def Let_def split: if_splits sum.splits)
  with Inl show ?thesis by blast
next
  case (Inr imageData')
  from plotMono_off_canvas [OF assms Inr] Inr show ?thesis by simp
qed

lemma plotMono_outside_nonneg:
  assumes "0 \<le> y (getZOrderCoordinates index)"
    and "\<not> (x (getZOrderCoordinates index) < int W \<and> y (getZOrderCoordinates index) < int H)"
  shows "plotMono viridisMap powerValue minPower maxPower index (Num (real W)) (Num (real H)) imageData
           = Inr imageData"
proof -
  let ?c = "getZOrderCoordinates index"
  have off: "\<not> (0 \<le> x ?c \<and> x ?c < int W \<and> 0 \<le> y ?c \<and> y ?c < int H)"
    using assms(2) by blast
  from off_canvas_cases [OF off x_getZOrderCoordinates_nonneg] assms(1)
  have "\<not> onCanvas ?c (Num (real W)) (Num (real H))" by auto
  then show ?thesis by (simp add: plotMono_def)
qed

lemma adjusted_index_int: "nadd (Num (real i)) (Num (real_of_int k)) = Num (real_of_int (int i + k))"
  by simp

lemma off_canvas_in_range:
  assumes lo: "- (2 ^ 31) \<le> int i + k" and hi: "int i + k < 2 ^ 31"
    and off: "int i + k < 0 \<or>
              \<not> (x (getZOrderCoordinates (nadd (Num (real i)) (Num (real_of_int k)))) < int W \<and>
                 y (getZOrderCoordinates (nadd (Num (real i)) (Num (real_of_int k)))) < int H)"
  shows "plotRGB lowPower midPower highPower maxRGB (nadd (Num (real i)) (Num (real_of_int k)))
           (Num (real W)) (Num (real H)) imageData = imageData \<and>
         (plotMono viridisMap powerValue minPower maxPower (nadd (Num (real i)) (Num (real_of_int k)))
            (Num (real W)) (Num (real H)) imageData = Inr imageData \<or>
          (\<exists>e. powerToColor viridisMap powerValue minPower maxPower = Inl e \<and>
               plotMono viridisMap powerValue minPower maxPower
                 (nadd (Num (real i)) (Num (real_of_int k))) (Num (real W)) (Num (real H)) imageData
                 = Inl e)) \<and>
         (0 \<le> int i + k \<longrightarrow>
            plotMono viridisMap powerValue minPower maxPower (nadd (Num (real i)) (Num (real_of_int k)))
              (Num (real W)) (Num (real H)) imageData = Inr imageData)"
proof -
  let ?index = "nadd (Num (real i)) (Num (real_of_int k))"
  let ?c = "getZOrderCoordinates ?index"
  have neg: "y ?c < 0" if "int i + k < 0"
    unfolding adjusted_index_int by (rule y_getZOrderCoordinates_negative [OF lo that])
  have nonneg: "0 \<le> y ?c" if "0 \<le> int i + k"
    unfolding adjusted_index_int by (rule y_getZOrderCoordinates_nonneg [OF that hi])
  have outside: "\<not> (0 \<le> x ?c \<and> x ?c < int W \<and> 0 \<le> y ?c \<and> y ?c < int H)"
    using off neg by auto
  have rgb: "plotRGB lowPower midPower highPower maxRGB ?index (Num (real W)) (Num (real H)) imageData
               = imageData"
    by (rule plotRGB_off_canvas [OF outside])
  have mono1: "plotMono viridisMap powerValue minPower maxPower ?index (Num (real W)) (Num (real H))
                 imageData = Inr imageData \<or>
               (\<exists>e. powerToColor viridisMap powerValue minPower maxPower = Inl e \<and>
                    plotMono viridisMap powerValue minPower maxPower ?index (Num (real W))
                      (Num (real H)) imageData = Inl e)"
    by (rule plotMono_off_canvas_cases [OF outside])
  have mono2: "plotMono viridisMap powerValue minPower maxPower ?index (Num (real W)) (Num (real H))
                 imageData = Inr imageData" if nn: "0 \<le> int i + k"
  proof -
    from off nn have "\<not> (x ?c < int W \<and> y ?c < int H)" by auto
    with nonneg [OF nn] show ?thesis by (intro plotMono_outside_nonneg)
  qed
  from rgb mono1 mono2 show ?thesis by blast
qed

text \<open>
  Claim C9 (windows off the canvas are skipped, not clamped or wrapped), as stated, fails
  for an adjusted index outside the 32-bit range of the bitwise operators of
  \<open>getZOrderCoordinates\<close>: the index is wrapped modulo \<open>2^32\<close>. Window 0 with the offset
  \<open>-2^32\<close> has a negative adjusted index, and is drawn at pixel \<open>(0, 0)\<close> of a 2 by 2
  canvas, by the RGB body and by the mono body.
\<close>

theorem wrapped_index_is_drawn:
  "getZOrderCoordinates (nadd (Num (real 0)) (Num (real_of_int (- 4294967296)))) = \<lparr>x = 0, y = 0\<rparr> \<and>
   plotRGB (Num 1) (Num 1) (Num 1) \<lparr>low = Num 1, mid = Num 1, high = Num 1\<rparr>
     (nadd (Num (real 0)) (Num (real_of_int (- 4294967296)))) (Num (real 2)) (Num (real 2))
     [0, 0, 0, 0, 0, 0, 0, 0, 0, 0, 0, 0, 0, 0, 0, 0]
     = [255, 255, 255, 255, 0, 0, 0, 0, 0, 0, 0, 0, 0, 0, 0, 0] \<and>
   plotMono (replicate 256 (68, 1, 84)) (Num 1) (Num 0) (Num 1)
     (nadd (Num (real 0)) (Num (real_of_int (- 4294967296)))) (Num (real 2)) (Num (real 2))
     [0, 0, 0, 0, 0, 0, 0, 0, 0, 0, 0, 0, 0, 0, 0, 0]
     = Inr [68, 1, 84, 255, 0, 0, 0, 0, 0, 0, 0, 0, 0, 0, 0, 0]"
proof -
  have c: "getZOrderCoordinates (nadd (Num (real 0)) (Num (real_of_int (- 4294967296))))
             = \<lparr>x = 0, y = 0\<rparr>"
    by (simp add: getZOrderCoordinates_def toInt32_def getZOrderCoordinates_loop.simps)
  have rgb: "plotRGB (Num 1) (Num 1) (Num 1) \<lparr>low = Num 1, mid = Num 1, high = Num 1\<rparr>
     (nadd (Num (real 0)) (Num (real_of_int (- 4294967296)))) (Num (real 2)) (Num (real 2))
     [0, 0, 0, 0, 0, 0, 0, 0, 0, 0, 0, 0, 0, 0, 0, 0]
     = [255, 255, 255, 255, 0, 0, 0, 0, 0, 0, 0, 0, 0, 0, 0, 0]"
    unfolding plotRGB_def c
    by (simp add: onCanvas_def pixelIndexOf_def Let_def setByte_def toUint8Clamp_def Math_min_def)
  have mono: "plotMono (replicate 256 (68, 1, 84)) (Num 1) (Num 0) (Num 1)
     (nadd (Num (real 0)) (Num (real_of_int (- 4294967296)))) (Num (real 2)) (Num (real 2))
     [0, 0, 0, 0, 0, 0, 0, 0, 0, 0, 0, 0, 0, 0, 0, 0]
     = Inr [68, 1, 84, 255, 0, 0, 0, 0, 0, 0, 0, 0, 0, 0, 0, 0]"
    unfolding plotMono_def c
    by (simp add: onCanvas_def pixelIndexOf_def Let_def setByte_def toUint8Clamp_def
          powerToColor_def strictEq_def tableEntry_def rgba_def Math_min_def Math_max_def)
  from c rgb mono show ?thesis by blast
qed

text \<open>
  Claim C9, amended by the range of the index. For an adjusted index \<open>i + offset\<close> in the
  signed 32-bit range \<open>[-2^31, 2^31)\<close>, on a canvas of \<open>W\<close> by \<open>H\<close> pixels: when the
  adjusted index is negative, or its coordinates are not both below the canvas dimensions,
  the RGB body leaves the image data as it was, and the mono body either leaves it as it
  was or throws, from the colour lookup, before any write. For a non-negative adjusted
  index the mono body leaves the image data as it was (no colour is looked up). (A negative
  index of the range has a negative \<open>y\<close>, which passes the test \<open>y < height\<close>; the byte
  indices are then negative and the typed array ignores the writes. In that range the index
  is not wrapped: \<open>interleave\<close> maps the coordinates back to it, lemma
  \<open>morton_roundtrip_index\<close>.)
\<close>

theorem off_canvas_window_skipped:
  "- (2 ^ 31) \<le> int i + k \<and> int i + k < 2 ^ 31 \<and>
   (int i + k < 0 \<or>
    \<not> (x (getZOrderCoordinates (nadd (Num (real i)) (Num (real_of_int k)))) < int W \<and>
       y (getZOrderCoordinates (nadd (Num (real i)) (Num (real_of_int k)))) < int H)) \<longrightarrow>
   plotRGB lowPower midPower highPower maxRGB (nadd (Num (real i)) (Num (real_of_int k)))
     (Num (real W)) (Num (real H)) imageData = imageData \<and>
   (plotMono viridisMap powerValue minPower maxPower (nadd (Num (real i)) (Num (real_of_int k)))
      (Num (real W)) (Num (real H)) imageData = Inr imageData \<or>
    (\<exists>e. powerToColor viridisMap powerValue minPower maxPower = Inl e \<and>
         plotMono viridisMap powerValue minPower maxPower
           (nadd (Num (real i)) (Num (real_of_int k))) (Num (real W)) (Num (real H)) imageData
           = Inl e)) \<and>
   (0 \<le> int i + k \<longrightarrow>
      plotMono viridisMap powerValue minPower maxPower (nadd (Num (real i)) (Num (real_of_int k)))
        (Num (real W)) (Num (real H)) imageData = Inr imageData)"
  using off_canvas_in_range [of i k W H] by blast

text \<open>Two witnesses on a 2 by 2 canvas: the index \<open>-2^31\<close>, which maps to \<open>(0, -32768)\<close>
  and passes the test of the loop body, and the index \<open>3 + 2\<close>, which maps to \<open>(3, 0)\<close>
  and fails it (with an empty colour table and the power NaN, a lookup would throw).\<close>

theorem off_canvas_window_skipped_witness:
  "- (2 ^ 31) \<le> int 0 + (- 2147483648) \<and> int 0 + (- 2147483648) < 2 ^ 31 \<and>
   int 0 + (- 2147483648) < 0 \<and>
   getZOrderCoordinates (nadd (Num (real 0)) (Num (real_of_int (- 2147483648))))
     = \<lparr>x = 0, y = - 32768\<rparr> \<and>
   onCanvas (getZOrderCoordinates (nadd (Num (real 0)) (Num (real_of_int (- 2147483648)))))
     (Num (real 2)) (Num (real 2)) \<and>
   plotRGB (Num 1) (Num 1) (Num 1) \<lparr>low = Num 1, mid = Num 1, high = Num 1\<rparr>
     (nadd (Num (real 0)) (Num (real_of_int (- 2147483648)))) (Num (real 2)) (Num (real 2))
     (replicate 16 7) = replicate 16 7 \<and>
   plotMono (replicate 256 (68, 1, 84)) (Num 1) (Num 0) (Num 1)
     (nadd (Num (real 0)) (Num (real_of_int (- 2147483648)))) (Num (real 2)) (Num (real 2))
     (replicate 16 7) = Inr (replicate 16 7) \<and>
   - (2 ^ 31) \<le> int 3 + 2 \<and> int 3 + 2 < 2 ^ 31 \<and> 0 \<le> int 3 + 2 \<and>
   getZOrderCoordinates (nadd (Num (real 3)) (Num (real_of_int 2))) = \<lparr>x = 3, y = 0\<rparr> \<and>
   plotRGB (Num 1) (Num 1) (Num 1) \<lparr>low = Num 1, mid = Num 1, high = Num 1\<rparr>
     (nadd (Num (real 3)) (Num (real_of_int 2))) (Num (real 2)) (Num (real 2))
     (replicate 16 7) = replicate 16 7 \<and>
   plotMono [] NaN (Num 0) (Num 1)
     (nadd (Num (real 3)) (Num (real_of_int 2))) (Num (real 2)) (Num (real 2))
     (replicate 16 7) = Inr (replicate 16 7)"
proof -
  let ?neg = "nadd (Num (real 0)) (Num (real_of_int (- 2147483648)))"
  let ?pos = "nadd (Num (real 3)) (Num (real_of_int 2))"
  let ?vm = "replicate 256 (68 :: nat, 1 :: nat, 84 :: nat)"
  have r1: "- (2 ^ 31) \<le> int 0 + (- 2147483648) \<and> int 0 + (- 2147483648) < 2 ^ 31 \<and>
            int 0 + (- 2147483648) < 0"
    by simp
  have c1: "getZOrderCoordinates ?neg = \<lparr>x = 0, y = - 32768\<rparr>"
    by (simp add: getZOrderCoordinates_def toInt32_def getZOrderCoordinates_loop.simps)
  have g1: "onCanvas (getZOrderCoordinates ?neg) (Num (real 2)) (Num (real 2))"
    unfolding c1 by (simp add: onCanvas_def)
  have p1: "\<not> (\<exists>e. powerToColor ?vm (Num 1) (Num 0) (Num 1) = Inl e)"
    by (simp add: powerToColor_def strictEq_def tableEntry_def rgba_def Math_min_def Math_max_def)
  from off_canvas_window_skipped [of 0 "- 2147483648" 2 2 "Num 1" "Num 1" "Num 1"
         "\<lparr>low = Num 1, mid = Num 1, high = Num 1\<rparr>" "replicate 16 7" ?vm "Num 1" "Num 0" "Num 1"]
       r1 p1
  have a: "plotRGB (Num 1) (Num 1) (Num 1) \<lparr>low = Num 1, mid = Num 1, high = Num 1\<rparr>
             ?neg (Num (real 2)) (Num (real 2)) (replicate 16 7) = replicate 16 7 \<and>
           plotMono ?vm (Num 1) (Num 0) (Num 1) ?neg (Num (real 2)) (Num (real 2))
             (replicate 16 7) = Inr (replicate 16 7)"
    by blast
  have r2: "- (2 ^ 31) \<le> int 3 + 2 \<and> int 3 + 2 < 2 ^ 31 \<and> 0 \<le> int 3 + 2" by simp
  have c2: "getZOrderCoordinates ?pos = \<lparr>x = 3, y = 0\<rparr>"
    by (simp add: getZOrderCoordinates_def toInt32_def getZOrderCoordinates_loop.simps)
  have o2: "\<not> (x (getZOrderCoordinates ?pos) < int 2 \<and> y (getZOrderCoordinates ?pos) < int 2)"
    unfolding c2 by simp
  from off_canvas_window_skipped [of 3 2 2 2 "Num 1" "Num 1" "Num 1"
         "\<lparr>low = Num 1, mid = Num 1, high = Num 1\<rparr>" "replicate 16 7" "[]" NaN "Num 0" "Num 1"]
       r2 o2
  have b: "plotRGB (Num 1) (Num 1) (Num 1) \<lparr>low = Num 1, mid = Num 1, high = Num 1\<rparr>
             ?pos (Num (real 2)) (Num (real 2)) (replicate 16 7) = replicate 16 7 \<and>
           plotMono [] NaN (Num 0) (Num 1) ?pos (Num (real 2)) (Num (real 2))
             (replicate 16 7) = Inr (replicate 16 7)"
    by blast
  from r1 c1 g1 a r2 c2 b show ?thesis by blast
qed

section \<open>The window loop\<close>

lemma processMonoMode_loop_powers:
  "processMonoMode_loop viridisMap audioData totalWindows windowIntervalSamples windowSize
       zOrderOffset canvasWidth canvasHeight tempMaxPower i powers imageData shown
     = Inr (ps, imageData', shown') \<Longrightarrow>
   ps = powers @ map (\<lambda>j. calculateRMSPower audioData
                             (Math_round (nmul (Num (real j)) windowIntervalSamples)) windowSize)
                  [i..<totalWindows]"
proof (induction viridisMap audioData totalWindows windowIntervalSamples windowSize
         zOrderOffset canvasWidth canvasHeight tempMaxPower i powers imageData shown
         rule: processMonoMode_loop.induct)
  case (1 viridisMap audioData totalWindows windowIntervalSamples windowSize
         zOrderOffset canvasWidth canvasHeight tempMaxPower i powers imageData shown)
  let ?p = "calculateRMSPower audioData (startSampleOf i windowIntervalSamples) windowSize"
  show ?case
  proof (cases "i < totalWindows")
    case False
    with "1.prems" show ?thesis
      by (simp add: processMonoMode_loop.simps
            [of viridisMap audioData totalWindows windowIntervalSamples windowSize
                zOrderOffset canvasWidth canvasHeight tempMaxPower i powers imageData shown])
  next
    case True
    from "1.prems" True obtain im where
      plot: "plotMono viridisMap ?p (Num 0) tempMaxPower (nadd (Num (real i)) zOrderOffset)
               canvasWidth canvasHeight imageData = Inr im"
      and rest: "processMonoMode_loop viridisMap audioData totalWindows windowIntervalSamples
               windowSize zOrderOffset canvasWidth canvasHeight tempMaxPower (Suc i)
               (powers @ [?p]) im (if i mod 1000 = 0 then im else shown)
             = Inr (ps, imageData', shown')"
      by (simp add: processMonoMode_loop.simps
            [of viridisMap audioData totalWindows windowIntervalSamples windowSize
                zOrderOffset canvasWidth canvasHeight tempMaxPower i powers imageData shown]
            Let_def split: sum.splits)
    have "ps = (powers @ [?p]) @
            map (\<lambda>j. calculateRMSPower audioData
                        (Math_round (nmul (Num (real j)) windowIntervalSamples)) windowSize)
              [Suc i..<totalWindows]"
      by (rule "1.IH" [OF True refl refl plot rest])
    with True show ?thesis
      by (simp add: upt_conv_Cons startSampleOf_def)
  qed
qed

lemma start_sample_in_range:
  assumes wis: "1 \<le> wis" and i: "i < nat \<lfloor>real L / wis\<rfloor>"
  shows "0 \<le> round (real i * wis) \<and> nat (round (real i * wis)) < L"
proof -
  have pos: "0 < wis" using wis by simp
  from i have "int i + 1 \<le> \<lfloor>real L / wis\<rfloor>" by linarith
  then have "real_of_int (int i + 1) \<le> real L / wis" by (simp only: le_floor_iff)
  then have "real i + 1 \<le> real L / wis" by simp
  then have "(real i + 1) * wis \<le> real L" using pos by (simp add: pos_le_divide_eq)
  then have "real i * wis + wis \<le> real L" by (simp add: algebra_simps)
  with wis have up: "real i * wis + 1 / 2 < real L" by simp
  have "0 \<le> real i * wis" using pos by simp
  then have lo: "0 \<le> round (real i * wis)" by (simp add: round_def)
  have "round (real i * wis) < int L"
    unfolding round_def using up by (simp add: floor_less_iff)
  with lo show ?thesis by simp
qed

lemma totalWindowsOf_finite:
  "wis \<noteq> 0 \<Longrightarrow> totalWindowsOf L (Num wis) = Num (real_of_int \<lfloor>real L / wis\<rfloor>)"
  by (simp add: totalWindowsOf_def)

lemma windowCount_totalWindowsOf:
  "wis \<noteq> 0 \<Longrightarrow> windowCount (totalWindowsOf L (Num wis)) = nat \<lfloor>real L / wis\<rfloor>"
  by (simp add: totalWindowsOf_finite windowCount_def)

lemma startSampleOf_finite:
  "startSampleOf i (Num wis) = Num (real_of_int (round (real i * wis)))"
  by (simp add: startSampleOf_def)

lemma window_power_finite:
  assumes wis: "1 \<le> wis" and ws: "1 \<le> ws"
    and i: "i < windowCount (totalWindowsOf (length audioData) (Num wis))"
  shows "\<exists>s p. startSampleOf i (Num wis) = Num (real s) \<and> s < length audioData \<and>
               calculateRMSPower audioData (startSampleOf i (Num wis)) (Num (real_of_int ws)) = Num p \<and>
               0 \<le> p"
proof -
  have nz: "wis \<noteq> 0" using wis by simp
  from i have i': "i < nat \<lfloor>real (length audioData) / wis\<rfloor>"
    by (simp add: windowCount_totalWindowsOf [OF nz])
  let ?s = "nat (round (real i * wis))"
  from start_sample_in_range [OF wis i'] have r: "0 \<le> round (real i * wis)" "?s < length audioData"
    by simp_all
  have st: "startSampleOf i (Num wis) = Num (real ?s)"
    using r(1) by (simp add: startSampleOf_finite)
  have w: "0 < ws" using ws by simp
  have "calculateRMSPower audioData (Num (real ?s)) (Num (real_of_int ws)) =
          Num (sqrt ((\<Sum>k = ?s..<min (?s + nat ws) (length audioData). (audioData ! k)\<^sup>2)
                        / real (min (?s + nat ws) (length audioData) - ?s)))"
    by (rule calculateRMSPower_window [OF r(2) w])
  moreover have "0 \<le> sqrt ((\<Sum>k = ?s..<min (?s + nat ws) (length audioData). (audioData ! k)\<^sup>2)
                        / real (min (?s + nat ws) (length audioData) - ?s))"
    by (simp add: sum_nonneg)
  ultimately show ?thesis using st r(2) by metis
qed

lemma loop_powers_finite:
  assumes wis: "1 \<le> wis" and ws: "1 \<le> ws"
    and run: "processMonoMode_loop viridisMap audioData
                (windowCount (totalWindowsOf (length audioData) (Num wis))) (Num wis)
                (Num (real_of_int ws)) zOrderOffset canvasWidth canvasHeight tempMaxPower
                0 [] imageData shown = Inr (ps, imageData', shown')"
  shows "\<forall>q \<in> set ps. \<exists>p. q = Num p \<and> 0 \<le> p"
proof -
  let ?n = "windowCount (totalWindowsOf (length audioData) (Num wis))"
  have ps: "ps = map (\<lambda>j. calculateRMSPower audioData
                             (Math_round (nmul (Num (real j)) (Num wis))) (Num (real_of_int ws)))
                  [0..<?n]"
    using processMonoMode_loop_powers [OF run] by simp
  show ?thesis
  proof
    fix q assume "q \<in> set ps"
    then obtain j where j: "j < ?n"
      and q: "q = calculateRMSPower audioData (Math_round (nmul (Num (real j)) (Num wis)))
                    (Num (real_of_int ws))"
      unfolding ps by auto
    from window_power_finite [OF wis ws j] obtain p where
      "calculateRMSPower audioData (startSampleOf j (Num wis)) (Num (real_of_int ws)) = Num p" "0 \<le> p"
      by blast
    then show "\<exists>p. q = Num p \<and> 0 \<le> p"
      unfolding q startSampleOf_def by blast
  qed
qed

lemma processMonoMode_cache:
  assumes "processMonoMode viridisMap audioData n wis ws zo cw ch imageData spb w = (c, w')"
  shows "app w' = app w \<or>
         (\<exists>ps imageData' shown'.
            processMonoMode_loop viridisMap audioData n wis ws zo cw ch (maxPowerMono (app w))
              0 [] imageData (canvasPixels w) = Inr (ps, imageData', shown') \<and>
            cachedPowers (app w') = Some ps)"
proof (cases "processMonoMode_loop viridisMap audioData n wis ws zo cw ch (maxPowerMono (app w))
              0 [] imageData (canvasPixels w)")
  case (Inl a)
  with assms show ?thesis
    by (auto simp: processMonoMode_def split: prod.splits)
next
  case (Inr b)
  obtain ps imageData' shown' where b: "b = (ps, imageData', shown')" by (cases b)
  let ?w1 = "\<lparr>app = (app w)\<lparr>cachedPowers := Some ps, cachedRGBPowers := None,
                 cachedCanvasWidth := cw, cachedCanvasHeight := ch,
                 cachedSamplesPerBeat := spb, cachedVizMode := Mono,
                 maxPowerMono := finalMax ps\<rparr>, canvasPixels = shown'\<rparr>"
  from assms Inr b have "redrawCanvas viridisMap zo ?w1 = (c, w')"
    by (simp add: processMonoMode_def)
  then have "app w' = app ?w1"
    using redrawCanvas_app [of viridisMap zo ?w1] by simp
  then have "cachedPowers (app w') = Some ps" by simp
  with Inr b show ?thesis by blast
qed

lemma processAudio_cache:
  assumes "processAudio viridisMap ui w = (c, w')"
  shows "cachedPowers (app w') = cachedPowers (app w) \<or>
         (\<exists>buffer imageData ps imageData' shown'.
            audioBuffer (app w) = Some buffer \<and>
            processMonoMode_loop viridisMap (channelData buffer)
              (windowCount (totalWindowsOf (length (channelData buffer))
                 (windowIntervalSamplesOf (bpmInput ui) (samplesPerBeatInput ui)
                    (Num (sampleRate buffer)))))
              (windowIntervalSamplesOf (bpmInput ui) (samplesPerBeatInput ui)
                 (Num (sampleRate buffer)))
              (windowSizeInput ui)
              (zOrderOffsetOf (zOrderOffsetInput ui) (bpmInput ui) (samplesPerBeatInput ui))
              (canvasWidthOf (totalWindowsOf (length (channelData buffer))
                 (windowIntervalSamplesOf (bpmInput ui) (samplesPerBeatInput ui)
                    (Num (sampleRate buffer)))))
              (canvasHeightOf (totalWindowsOf (length (channelData buffer))
                 (windowIntervalSamplesOf (bpmInput ui) (samplesPerBeatInput ui)
                    (Num (sampleRate buffer)))))
              (maxPowerMono (app w)) 0 [] imageData (canvasPixels w)
             = Inr (ps, imageData', shown') \<and>
            cachedPowers (app w') = Some ps)"
proof (cases "audioBuffer (app w)")
  case None
  with assms show ?thesis by (simp add: processAudio_def)
next
  case (Some buffer)
  show ?thesis
  proof (cases "isProcessing (app w)")
    case True
    with assms Some show ?thesis by (simp add: processAudio_def)
  next
    case False
    let ?wis = "windowIntervalSamplesOf (bpmInput ui) (samplesPerBeatInput ui) (Num (sampleRate buffer))"
    let ?tw = "totalWindowsOf (length (channelData buffer)) ?wis"
    let ?w1 = "w\<lparr>app := (app w)\<lparr>isProcessing := True\<rparr>\<rparr>"
    show ?thesis
    proof (cases "createImageData (canvasWidthOf ?tw) (canvasHeightOf ?tw)")
      case (Inl e)
      with assms Some False have "w' = ?w1" by (simp add: processAudio_def Let_def)
      then show ?thesis by simp
    next
      case (Inr imageData)
      obtain c2 w2 where pm: "processMonoMode viridisMap (channelData buffer) (windowCount ?tw) ?wis
          (windowSizeInput ui)
          (zOrderOffsetOf (zOrderOffsetInput ui) (bpmInput ui) (samplesPerBeatInput ui))
          (canvasWidthOf ?tw) (canvasHeightOf ?tw) imageData (samplesPerBeatInput ui) ?w1 = (c2, w2)"
        by (cases "processMonoMode viridisMap (channelData buffer) (windowCount ?tw) ?wis
          (windowSizeInput ui)
          (zOrderOffsetOf (zOrderOffsetInput ui) (bpmInput ui) (samplesPerBeatInput ui))
          (canvasWidthOf ?tw) (canvasHeightOf ?tw) imageData (samplesPerBeatInput ui) ?w1")
      from assms Some False Inr pm have cp: "cachedPowers (app w') = cachedPowers (app w2)"
        by (cases c2) (auto simp add: processAudio_def Let_def)
      from processMonoMode_cache [OF pm] show ?thesis
      proof
        assume "app w2 = app ?w1"
        with cp show ?thesis by simp
      next
        assume "\<exists>ps imageData' shown'.
            processMonoMode_loop viridisMap (channelData buffer) (windowCount ?tw) ?wis
              (windowSizeInput ui)
              (zOrderOffsetOf (zOrderOffsetInput ui) (bpmInput ui) (samplesPerBeatInput ui))
              (canvasWidthOf ?tw) (canvasHeightOf ?tw) (maxPowerMono (app ?w1))
              0 [] imageData (canvasPixels ?w1) = Inr (ps, imageData', shown') \<and>
            cachedPowers (app w2) = Some ps"
        with cp Some show ?thesis by auto
      qed
    qed
  qed
qed
















section \<open>Evaluating a pass on a small input\<close>

lemma canvas_two: "canvasWidthOf (Num 2) = Num 2 \<and> canvasHeightOf (Num 2) = Num 1"
proof -
  have "totalBitsOf (Num (real 2)) = Num (real 1)"
    by (rule totalBitsOf_nat) simp_all
  then have tb: "totalBitsOf (Num 2) = Num (real 1)" by simp
  show ?thesis
    unfolding canvasWidthOf_def canvasHeightOf_def tb xBitsOf_nat yBitsOf_nat Math_pow2_nat
    by simp
qed

lemmas pipeline_eval = processAudio_def processMonoMode_def redrawCanvas_def createImageData_def
  windowIntervalSamplesOf_def windowIntervalSecondsOf_def windowsPerSecondOf_def beatsPerSecondOf_def
  zOrderOffsetOf_def totalWindowsOf_def windowCount_def startSampleOf_def
  processMonoMode_loop.simps calculateRMSPower_def calculateRMSPower_loop.simps
  sampleAt_def Math_min_def Math_max_def plotMono_def onCanvas_def pixelIndexOf_def
  getZOrderCoordinates_def getZOrderCoordinates_loop.simps toInt32_def powerToColor_def
  strictEq_def tableEntry_def rgba_def setByte_def toUint8Clamp_def clearAlpha_loop.simps
  redrawMono_loop.simps finalMax_def round_def Let_def initialState_def canvas_two

section \<open>Drift-free window positions\<close>



section \<open>No validation of the configuration\<close>







section \<open>Powers recorded by a pass\<close>

text \<open>
  Claim C10 (the pipeline never records NaN), as stated, fails: the claim bounds the
  start sample but not the window size, and the pipeline accepts a window size of 0. With
  interval 2 on four samples, window 0 starts at sample 0 inside the signal, its power is
  \<open>0 / 0\<close>, and (with the offset moving both windows off the canvas, so that no colour is
  looked up) the pass stores two NaN in the cache.
\<close>

theorem zero_window_size_records_NaN:
  "windowIntervalSamplesOf (Num 60) (Num 1) (Num 2) = Num 2 \<and>
   windowCount (totalWindowsOf (length [1, 1, 1, 1 :: real]) (Num 2)) = 2 \<and>
   startSampleOf 0 (Num 2) = Num 0 \<and>
   calculateRMSPower [1, 1, 1, 1] (startSampleOf 0 (Num 2)) (Num 0) = NaN \<and>
   cachedPowers (app (snd (processAudio (replicate 256 (68, 1, 84))
          \<lparr>bpmInput = Num 60, samplesPerBeatInput = Num 1, windowSizeInput = Num 0,
           zOrderOffsetInput = Num 2\<rparr>
          \<lparr>app = initialState\<lparr>audioBuffer :=
                   Some \<lparr>sampleRate = 2, channelData = [1, 1, 1, 1]\<rparr>\<rparr>,
           canvasPixels = []\<rparr>))) = Some [NaN, NaN]"
  by (simp add: pipeline_eval)

text \<open>
  Claim C10, amended by the window size: for an interval of at least one sample and a
  window size of at least one sample, every window \<open>i\<close> below
  \<open>totalWindows = floor(length / interval)\<close> starts at a sample inside the signal and its
  power is a non-negative real; and after \<open>processAudio\<close> the cache is either the one of
  before or holds non-negative reals only.
\<close>

theorem recorded_powers_finite:
  "(1 \<le> wis \<and> 1 \<le> ws \<and> i < windowCount (totalWindowsOf (length audioData) (Num wis)) \<longrightarrow>
      (\<exists>s p. startSampleOf i (Num wis) = Num (real s) \<and> s < length audioData \<and>
             calculateRMSPower audioData (startSampleOf i (Num wis)) (Num (real_of_int ws)) = Num p \<and>
             0 \<le> p)) \<and>
   (audioBuffer (app w) = Some buffer \<and>
    windowIntervalSamplesOf (bpmInput ui) (samplesPerBeatInput ui) (Num (sampleRate buffer)) = Num wis \<and>
    1 \<le> wis \<and> windowSizeInput ui = Num (real_of_int ws) \<and> 1 \<le> ws \<and>
    processAudio viridisMap ui w = (c, w') \<longrightarrow>
      cachedPowers (app w') = cachedPowers (app w) \<or>
      (\<exists>ps. cachedPowers (app w') = Some ps \<and> (\<forall>q \<in> set ps. \<exists>p. q = Num p \<and> 0 \<le> p)))"
proof -
  have one: "\<exists>s p. startSampleOf i (Num wis) = Num (real s) \<and> s < length audioData \<and>
             calculateRMSPower audioData (startSampleOf i (Num wis)) (Num (real_of_int ws)) = Num p \<and>
             0 \<le> p"
    if "1 \<le> wis" "1 \<le> ws" "i < windowCount (totalWindowsOf (length audioData) (Num wis))"
    using window_power_finite [OF that] .
  have two: "cachedPowers (app w') = cachedPowers (app w) \<or>
      (\<exists>ps. cachedPowers (app w') = Some ps \<and> (\<forall>q \<in> set ps. \<exists>p. q = Num p \<and> 0 \<le> p))"
    if buf: "audioBuffer (app w) = Some buffer"
      and wis: "windowIntervalSamplesOf (bpmInput ui) (samplesPerBeatInput ui)
                  (Num (sampleRate buffer)) = Num wis" "1 \<le> wis"
      and ws: "windowSizeInput ui = Num (real_of_int ws)" "1 \<le> ws"
      and run: "processAudio viridisMap ui w = (c, w')"
  proof -
    from processAudio_cache [OF run] show ?thesis
    proof
      assume "cachedPowers (app w') = cachedPowers (app w)"
      then show ?thesis ..
    next
      assume "\<exists>buffer imageData ps imageData' shown'.
            audioBuffer (app w) = Some buffer \<and>
            processMonoMode_loop viridisMap (channelData buffer)
              (windowCount (totalWindowsOf (length (channelData buffer))
                 (windowIntervalSamplesOf (bpmInput ui) (samplesPerBeatInput ui)
                    (Num (sampleRate buffer)))))
              (windowIntervalSamplesOf (bpmInput ui) (samplesPerBeatInput ui)
                 (Num (sampleRate buffer)))
              (windowSizeInput ui)
              (zOrderOffsetOf (zOrderOffsetInput ui) (bpmInput ui) (samplesPerBeatInput ui))
              (canvasWidthOf (totalWindowsOf (length (channelData buffer))
                 (windowIntervalSamplesOf (bpmInput ui) (samplesPerBeatInput ui)
                    (Num (sampleRate buffer)))))
              (canvasHeightOf (totalWindowsOf (length (channelData buffer))
                 (windowIntervalSamplesOf (bpmInput ui) (samplesPerBeatInput ui)
                    (Num (sampleRate buffer)))))
              (maxPowerMono (app w)) 0 [] imageData (canvasPixels w)
             = Inr (ps, imageData', shown') \<and>
            cachedPowers (app w') = Some ps"
      then obtain imageData ps imageData' shown' where
        loop: "processMonoMode_loop viridisMap (channelData buffer)
              (windowCount (totalWindowsOf (length (channelData buffer)) (Num wis)))
              (Num wis) (Num (real_of_int ws))
              (zOrderOffsetOf (zOrderOffsetInput ui) (bpmInput ui) (samplesPerBeatInput ui))
              (canvasWidthOf (totalWindowsOf (length (channelData buffer)) (Num wis)))
              (canvasHeightOf (totalWindowsOf (length (channelData buffer)) (Num wis)))
              (maxPowerMono (app w)) 0 [] imageData (canvasPixels w)
             = Inr (ps, imageData', shown')"
        and cache: "cachedPowers (app w') = Some ps"
        using buf wis(1) ws(1) by auto
      from loop_powers_finite [OF wis(2) ws(2) loop] cache show ?thesis by blast
    qed
  qed
  from one two show ?thesis by blast
qed

theorem recorded_powers_finite_witness:
  "(1 :: real) \<le> 2 \<and> (1 :: int) \<le> 2 \<and>
   1 < windowCount (totalWindowsOf (length [1, 1, 1, 1 :: real]) (Num 2)) \<and>
   (\<exists>s p. startSampleOf 1 (Num 2) = Num (real s) \<and> s < length [1, 1, 1, 1 :: real] \<and>
          calculateRMSPower [1, 1, 1, 1] (startSampleOf 1 (Num 2)) (Num (real_of_int 2)) = Num p \<and>
          0 \<le> p) \<and>
   windowIntervalSamplesOf (Num 60) (Num 1) (Num 2) = Num 2 \<and>
   cachedPowers (app (snd (processAudio (replicate 256 (68, 1, 84))
          \<lparr>bpmInput = Num 60, samplesPerBeatInput = Num 1, windowSizeInput = Num 2,
           zOrderOffsetInput = Num 0\<rparr>
          \<lparr>app = initialState\<lparr>audioBuffer :=
                   Some \<lparr>sampleRate = 2, channelData = [1, 1, 1, 1]\<rparr>\<rparr>,
           canvasPixels = []\<rparr>))) = Some [Num 1, Num 1] \<and>
   (\<exists>ps. cachedPowers (app (snd (processAudio (replicate 256 (68, 1, 84))
          \<lparr>bpmInput = Num 60, samplesPerBeatInput = Num 1, windowSizeInput = Num 2,
           zOrderOffsetInput = Num 0\<rparr>
          \<lparr>app = initialState\<lparr>audioBuffer :=
                   Some \<lparr>sampleRate = 2, channelData = [1, 1, 1, 1]\<rparr>\<rparr>,
           canvasPixels = []\<rparr>))) = Some ps \<and>
         (\<forall>q \<in> set ps. \<exists>p. q = Num p \<and> 0 \<le> p))"
proof -
  let ?buffer = "\<lparr>sampleRate = 2, channelData = [1, 1, 1, 1]\<rparr>"
  let ?w = "\<lparr>app = initialState\<lparr>audioBuffer := Some ?buffer\<rparr>, canvasPixels = []\<rparr>"
  let ?ui = "\<lparr>bpmInput = Num 60, samplesPerBeatInput = Num 1, windowSizeInput = Num 2,
             zOrderOffsetInput = Num 0\<rparr>"
  let ?vm = "replicate 256 (68 :: nat, 1 :: nat, 84 :: nat)"
  have h: "(1 :: real) \<le> 2 \<and> (1 :: int) \<le> 2 \<and>
           1 < windowCount (totalWindowsOf (length [1, 1, 1, 1 :: real]) (Num 2))"
    by (simp add: windowCount_def totalWindowsOf_def)
  have g1: "audioBuffer (app ?w) = Some ?buffer" by simp
  have g2: "windowIntervalSamplesOf (bpmInput ?ui) (samplesPerBeatInput ?ui)
              (Num (sampleRate ?buffer)) = Num 2"
    by (simp add: windowIntervalSamplesOf_def windowIntervalSecondsOf_def windowsPerSecondOf_def
          beatsPerSecondOf_def)
  then have g2': "windowIntervalSamplesOf (Num 60) (Num 1) (Num 2) = Num 2" by simp
  have g3: "windowSizeInput ?ui = Num (real_of_int 2)" by simp
  have g4: "processAudio ?vm ?ui ?w = (fst (processAudio ?vm ?ui ?w), snd (processAudio ?vm ?ui ?w))"
    by simp
  have ev: "cachedPowers (app (snd (processAudio ?vm ?ui ?w))) = Some [Num 1, Num 1]"
    by (simp add: pipeline_eval)
  have old: "cachedPowers (app ?w) = None" by (simp add: initialState_def)
  from recorded_powers_finite [of 2 2 1 "[1, 1, 1, 1]" ?w ?buffer ?ui ?vm
         "fst (processAudio ?vm ?ui ?w)" "snd (processAudio ?vm ?ui ?w)"] h g1 g2 g3 g4
  have one: "\<exists>s p. startSampleOf 1 (Num 2) = Num (real s) \<and> s < length [1, 1, 1, 1 :: real] \<and>
          calculateRMSPower [1, 1, 1, 1] (startSampleOf 1 (Num 2)) (Num (real_of_int 2)) = Num p \<and>
          0 \<le> p"
    and two: "cachedPowers (app (snd (processAudio ?vm ?ui ?w))) = cachedPowers (app ?w) \<or>
      (\<exists>ps. cachedPowers (app (snd (processAudio ?vm ?ui ?w))) = Some ps \<and>
            (\<forall>q \<in> set ps. \<exists>p. q = Num p \<and> 0 \<le> p))"
    by blast+
  from two ev old have three:
    "\<exists>ps. cachedPowers (app (snd (processAudio ?vm ?ui ?w))) = Some ps \<and>
          (\<forall>q \<in> set ps. \<exists>p. q = Num p \<and> 0 \<le> p)"
    by auto
  from h one g2' ev three show ?thesis by blast
qed

section \<open>Time and canvas position\<close>

lemma getCanvasPositionForTime_Some:
  assumes "getCanvasPositionForTime ar tm bpm spb sz zo = Some c"
  shows "\<not> falsy spb \<and>
         c = getZOrderCoordinates
               (fadd ar (Math_floor (fdiv ar tm (fdiv ar (Num 1) (fmul ar (fdiv ar bpm (Num 60)) spb)))) zo)"
  using assms by (simp add: getCanvasPositionForTime_def Let_def split: if_splits)

lemma time_position_index:
  assumes pos: "getCanvasPositionForTime ar tm bpm spb sz (Num (real_of_int k)) = Some c"
    and idx: "Math_floor (fdiv ar tm (fdiv ar (Num 1) (fmul ar (fdiv ar bpm (Num 60)) spb)))
                = Num (real_of_int m)"
    and sum: "fadd ar (Num (real_of_int m)) (Num (real_of_int k)) = Num (real_of_int (m + k))"
    and dif: "fsub ar (Num (real_of_int (m + k))) (Num (real_of_int k)) = Num (real_of_int m)"
    and lo: "- (2 ^ 31) \<le> m + k" and hi: "m + k < 2 ^ 31"
  shows "(\<exists>q. fdiv ar tm (fdiv ar (Num 1) (fmul ar (fdiv ar bpm (Num 60)) spb)) = Num q \<and>
              real_of_int m \<le> q \<and> q < real_of_int m + 1) \<and>
         c = getZOrderCoordinates (Num (real_of_int (m + k))) \<and>
         interleave (Num (real_of_int (x c))) (Num (real_of_int (y c))) = Num (real_of_int (m + k)) \<and>
         getTimeForCanvasClick ar (Num (real_of_int (x c))) (Num (real_of_int (y c))) bpm spb
           (Num (real_of_int k)) d =
         (if nlt (fmul ar (Num (real_of_int m)) (fdiv ar (Num 1) (fmul ar (fdiv ar bpm (Num 60)) spb)))
                 (Num 0) \<or>
             nlt d (fmul ar (Num (real_of_int m)) (fdiv ar (Num 1) (fmul ar (fdiv ar bpm (Num 60)) spb)))
          then None
          else Some (fmul ar (Num (real_of_int m))
                       (fdiv ar (Num 1) (fmul ar (fdiv ar bpm (Num 60)) spb))))"
proof -
  from getCanvasPositionForTime_Some [OF pos]
  have nf: "\<not> falsy spb"
    and c: "c = getZOrderCoordinates (Num (real_of_int (m + k)))"
    unfolding idx sum by simp_all
  have il: "interleave (Num (real_of_int (x c))) (Num (real_of_int (y c)))
              = Num (real_of_int (m + k))"
    using interleave_getZOrderCoordinates [of "Num (real_of_int (m + k))"]
          ofInt32_toInt32_int [OF lo hi]
    unfolding c by simp
  have fl: "Math_floor (Num (real_of_int j)) = Num (real_of_int j)" for j by simp
  have "getTimeForCanvasClick ar (Num (real_of_int (x c))) (Num (real_of_int (y c))) bpm spb
           (Num (real_of_int k)) d =
         (if nlt (fmul ar (Num (real_of_int m)) (fdiv ar (Num 1) (fmul ar (fdiv ar bpm (Num 60)) spb)))
                 (Num 0) \<or>
             nlt d (fmul ar (Num (real_of_int m)) (fdiv ar (Num 1) (fmul ar (fdiv ar bpm (Num 60)) spb)))
          then None
          else Some (fmul ar (Num (real_of_int m))
                       (fdiv ar (Num 1) (fmul ar (fdiv ar bpm (Num 60)) spb))))"
    unfolding getTimeForCanvasClick_def Let_def fl il dif using nf by simp
  moreover have "\<exists>q. fdiv ar tm (fdiv ar (Num 1) (fmul ar (fdiv ar bpm (Num 60)) spb)) = Num q \<and>
                    real_of_int m \<le> q \<and> q < real_of_int m + 1"
  proof (cases "fdiv ar tm (fdiv ar (Num 1) (fmul ar (fdiv ar bpm (Num 60)) spb))")
    case (Num q)
    with idx have "\<lfloor>q\<rfloor> = m" by simp
    then have "real_of_int m \<le> q \<and> q < real_of_int m + 1" by linarith
    with Num show ?thesis by blast
  qed (use idx in simp_all)
  ultimately show ?thesis using c il by blast
qed

lemma relative_error_bounds:
  fixes a v e :: real
  assumes "\<bar>v - a\<bar> \<le> e * a"
  shows "(1 - e) * a \<le> v" and "v \<le> (1 + e) * a"
  using assms by (simp_all add: algebra_simps abs_le_iff)

lemma time_position_bounds:
  fixes t w q t' e :: real
  assumes t0: "0 \<le> t" and w: "0 < w" and e0: "0 \<le> e" and e1: "e < 1"
    and q: "\<bar>q - t / w\<bar> \<le> e * (t / w)"
    and p: "\<bar>t' - real_of_int \<lfloor>q\<rfloor> * w\<bar> \<le> e * (real_of_int \<lfloor>q\<rfloor> * w)"
  shows "0 \<le> \<lfloor>q\<rfloor>" and "0 \<le> t'"
    and "- (2 * e + e\<^sup>2) * t \<le> t - t'"
    and "t - t' < w * ((real_of_int \<lfloor>q\<rfloor> + 1) / (1 - e) - real_of_int \<lfloor>q\<rfloor> * (1 - e))"
proof -
  define m where "m = real_of_int \<lfloor>q\<rfloor>"
  have tw: "0 \<le> t / w" using t0 w by simp
  have ql: "(1 - e) * (t / w) \<le> q" and qu: "q \<le> (1 + e) * (t / w)"
    using relative_error_bounds [OF q] by simp_all
  have pe: "0 \<le> 1 - e" and pe1: "0 \<le> 1 + e" and w0: "0 \<le> w" using e0 e1 w by simp_all
  have "0 \<le> (1 - e) * (t / w)" by (rule mult_nonneg_nonneg [OF pe tw])
  with ql have q0: "0 \<le> q" by simp
  then show m0': "0 \<le> \<lfloor>q\<rfloor>" by simp
  then have m0: "0 \<le> m" by (simp add: m_def)
  have mq: "m \<le> q" and qm: "q < m + 1" unfolding m_def by linarith+
  have mw0: "0 \<le> m * w" using m0 w by simp
  have pl: "(1 - e) * (m * w) \<le> t'" and pu: "t' \<le> (1 + e) * (m * w)"
    using relative_error_bounds [OF p] unfolding m_def by simp_all
  have "0 \<le> (1 - e) * (m * w)" by (rule mult_nonneg_nonneg [OF pe mw0])
  with pl show "0 \<le> t'" by simp
  have "m \<le> (1 + e) * (t / w)" using mq qu by simp
  then have "m * w \<le> (1 + e) * (t / w) * w" using w0 by (rule mult_right_mono)
  moreover have "(1 + e) * (t / w) * w = (1 + e) * t" using w by simp
  ultimately have mwt: "m * w \<le> (1 + e) * t" by simp
  have "(1 + e) * (m * w) \<le> (1 + e) * ((1 + e) * t)"
    using mwt pe1 by (rule mult_left_mono)
  with pu have "t' \<le> (1 + e) * ((1 + e) * t)" by simp
  then have "t - (1 + e) * ((1 + e) * t) \<le> t - t'" by simp
  moreover have "t - (1 + e) * ((1 + e) * t) = - (2 * e + e\<^sup>2) * t"
    by (simp add: algebra_simps power2_eq_square)
  ultimately show "- (2 * e + e\<^sup>2) * t \<le> t - t'" by simp
  have pos: "0 < 1 - e" using e1 by simp
  have "(1 - e) * (t / w) < m + 1" using ql qm by simp
  then have "(1 - e) * (t / w) * w < (m + 1) * w" using w by (rule mult_strict_right_mono)
  moreover have "(1 - e) * (t / w) * w = (1 - e) * t" using w by simp
  ultimately have "(1 - e) * t < (m + 1) * w" by simp
  then have "t * (1 - e) < (m + 1) * w" by (simp add: mult.commute)
  then have "t < (m + 1) * w / (1 - e)" using pos by (simp add: pos_less_divide_eq)
  with pl have "t - t' < (m + 1) * w / (1 - e) - (1 - e) * (m * w)" by simp
  also have "\<dots> = w * ((m + 1) / (1 - e) - m * (1 - e))"
    by (simp add: algebra_simps)
  finally show "t - t' < w * ((real_of_int \<lfloor>q\<rfloor> + 1) / (1 - e) - real_of_int \<lfloor>q\<rfloor> * (1 - e))"
    unfolding m_def .
qed

lemma time_position_roundtrip_rounded:
  fixes t w q t' e :: real
  assumes pos: "getCanvasPositionForTime ar (Num t) bpm spb sz (Num (real_of_int k)) = Some c"
    and interval: "fdiv ar (Num 1) (fmul ar (fdiv ar bpm (Num 60)) spb) = Num w" and w: "0 < w"
    and quot: "fdiv ar (Num t) (Num w) = Num q" and q: "\<bar>q - t / w\<bar> \<le> e * (t / w)"
    and prod: "fmul ar (Num (real_of_int \<lfloor>q\<rfloor>)) (Num w) = Num t'"
    and p: "\<bar>t' - real_of_int \<lfloor>q\<rfloor> * w\<bar> \<le> e * (real_of_int \<lfloor>q\<rfloor> * w)"
    and sum: "fadd ar (Num (real_of_int \<lfloor>q\<rfloor>)) (Num (real_of_int k)) = Num (real_of_int (\<lfloor>q\<rfloor> + k))"
    and dif: "fsub ar (Num (real_of_int (\<lfloor>q\<rfloor> + k))) (Num (real_of_int k)) = Num (real_of_int \<lfloor>q\<rfloor>)"
    and lo: "- (2 ^ 31) \<le> \<lfloor>q\<rfloor> + k" and hi: "\<lfloor>q\<rfloor> + k < 2 ^ 31"
    and t0: "0 \<le> t" and e0: "0 \<le> e" and e1: "e < 1"
  shows "c = getZOrderCoordinates (Num (real_of_int (\<lfloor>q\<rfloor> + k))) \<and>
         interleave (Num (real_of_int (x c))) (Num (real_of_int (y c)))
           = Num (real_of_int (\<lfloor>q\<rfloor> + k)) \<and>
         getTimeForCanvasClick ar (Num (real_of_int (x c))) (Num (real_of_int (y c))) bpm spb
             (Num (real_of_int k)) d
           = (if nlt d (Num t') then None else Some (Num t')) \<and>
         - (2 * e + e\<^sup>2) * t \<le> t - t' \<and>
         t - t' < w * ((real_of_int \<lfloor>q\<rfloor> + 1) / (1 - e) - real_of_int \<lfloor>q\<rfloor> * (1 - e))"
proof -
  have idx: "Math_floor (fdiv ar (Num t) (fdiv ar (Num 1) (fmul ar (fdiv ar bpm (Num 60)) spb)))
               = Num (real_of_int \<lfloor>q\<rfloor>)"
    unfolding interval quot by simp
  from time_position_index [OF pos idx sum dif lo hi, of d]
  have c: "c = getZOrderCoordinates (Num (real_of_int (\<lfloor>q\<rfloor> + k)))"
    and il: "interleave (Num (real_of_int (x c))) (Num (real_of_int (y c)))
               = Num (real_of_int (\<lfloor>q\<rfloor> + k))"
    and click: "getTimeForCanvasClick ar (Num (real_of_int (x c))) (Num (real_of_int (y c))) bpm spb
                  (Num (real_of_int k)) d
                = (if nlt (Num t') (Num 0) \<or> nlt d (Num t') then None else Some (Num t'))"
    unfolding interval prod by blast+
  from time_position_bounds [OF t0 w e0 e1 q p]
  have nonneg: "0 \<le> t'"
    and low: "- (2 * e + e\<^sup>2) * t \<le> t - t'"
    and up: "t - t' < w * ((real_of_int \<lfloor>q\<rfloor> + 1) / (1 - e) - real_of_int \<lfloor>q\<rfloor> * (1 - e))"
    by blast+
  from nonneg have "\<not> nlt (Num t') (Num 0)" by simp
  with click have "getTimeForCanvasClick ar (Num (real_of_int (x c))) (Num (real_of_int (y c)))
                     bpm spb (Num (real_of_int k)) d
                   = (if nlt d (Num t') then None else Some (Num t'))"
    by simp
  with c il low up show ?thesis by blast
qed

text \<open>
  Claim C8 (time and coordinate are inverse within one window), as stated, fails when the
  adjusted window index leaves the 32-bit range of the bitwise operators: with an offset
  of \<open>2^32\<close> windows, time 0 maps to pixel \<open>(0, 0)\<close>, and the click on that pixel maps to
  the time \<open>-2^32\<close> seconds, which is rejected. (Every operation on this input has an exact
  double result.)
\<close>

theorem time_roundtrip_fails_beyond_32_bits:
  "getCanvasPositionForTime exact (Num 0) (Num 60) (Num 1) (Num 1) (Num 4294967296)
     = Some \<lparr>x = 0, y = 0\<rparr> \<and>
   getTimeForCanvasClick exact (Num 0) (Num 0) (Num 60) (Num 1) (Num 4294967296) (Num 10) = None"
  by (simp add: getCanvasPositionForTime_def getTimeForCanvasClick_def falsy_def Let_def
        getZOrderCoordinates_def getZOrderCoordinates_loop.simps toInt32_def
        interleave_def interleave_loop.simps ofInt32_def exact_def)

text \<open>
  Claim C8, amended by the range of the index and by the rounding of the arithmetic. Let
  the interval \<open>w = 1 / windowsPerSecond\<close> the arithmetic computes be positive, let
  \<open>q\<close> be the quotient \<open>t / w\<close> and \<open>t'\<close> the product \<open>m * w\<close> it computes, where
  \<open>m = floor q\<close> is the window index, each with a relative error of at most \<open>e < 1\<close>, and
  let the offset be an integer \<open>k\<close> with \<open>m + k\<close> in the signed 32-bit range (the sum
  \<open>m + k\<close> and the difference \<open>(m + k) - k\<close> of these integers being exact). For \<open>t \<ge> 0\<close>,
  when \<open>getCanvasPositionForTime\<close> returns a coordinate, it is the Morton coordinate of
  \<open>m + k\<close>, \<open>interleave\<close> maps it back to \<open>m + k\<close>, and \<open>getTimeForCanvasClick\<close> on it
  returns \<open>t'\<close> (null when \<open>t'\<close> exceeds the duration), with
  \<open>- (2 e + e\<^sup>2) t \<le> t - t' < w ((m + 1) / (1 - e) - m (1 - e))\<close>.
  For \<open>e = 0\<close> these are the bounds \<open>0 \<le> t - t' < w\<close> of the claim.
\<close>

theorem time_coordinate_roundtrip:
  "getCanvasPositionForTime ar (Num t) bpm spb sz (Num (real_of_int k)) = Some c \<and>
   fdiv ar (Num 1) (fmul ar (fdiv ar bpm (Num 60)) spb) = Num w \<and> 0 < w \<and>
   fdiv ar (Num t) (Num w) = Num q \<and> \<bar>q - t / w\<bar> \<le> e * (t / w) \<and>
   fmul ar (Num (real_of_int \<lfloor>q\<rfloor>)) (Num w) = Num t' \<and>
   \<bar>t' - real_of_int \<lfloor>q\<rfloor> * w\<bar> \<le> e * (real_of_int \<lfloor>q\<rfloor> * w) \<and>
   fadd ar (Num (real_of_int \<lfloor>q\<rfloor>)) (Num (real_of_int k)) = Num (real_of_int (\<lfloor>q\<rfloor> + k)) \<and>
   fsub ar (Num (real_of_int (\<lfloor>q\<rfloor> + k))) (Num (real_of_int k)) = Num (real_of_int \<lfloor>q\<rfloor>) \<and>
   - (2 ^ 31) \<le> \<lfloor>q\<rfloor> + k \<and> \<lfloor>q\<rfloor> + k < 2 ^ 31 \<and> 0 \<le> t \<and> 0 \<le> e \<and> e < 1 \<longrightarrow>
     c = getZOrderCoordinates (Num (real_of_int (\<lfloor>q\<rfloor> + k))) \<and>
     interleave (Num (real_of_int (x c))) (Num (real_of_int (y c)))
       = Num (real_of_int (\<lfloor>q\<rfloor> + k)) \<and>
     getTimeForCanvasClick ar (Num (real_of_int (x c))) (Num (real_of_int (y c))) bpm spb
         (Num (real_of_int k)) d
       = (if nlt d (Num t') then None else Some (Num t')) \<and>
     - (2 * e + e\<^sup>2) * t \<le> t - t' \<and>
     t - t' < w * ((real_of_int \<lfloor>q\<rfloor> + 1) / (1 - e) - real_of_int \<lfloor>q\<rfloor> * (1 - e))"
  using time_position_roundtrip_rounded [of ar t bpm spb sz k c w q e t' d] by blast

text \<open>A witness in the exact arithmetic, with \<open>e = 0\<close>: 2.5 seconds at 60 BPM and one sample per
  beat is in window 2, at \<open>(0, 1)\<close>, whose click gives 2 seconds.\<close>

theorem time_coordinate_roundtrip_witness:
  "getCanvasPositionForTime exact (Num (5 / 2)) (Num 60) (Num 1) (Num 2) (Num (real_of_int 0))
     = Some \<lparr>x = 0, y = 1\<rparr> \<and>
   fdiv exact (Num 1) (fmul exact (fdiv exact (Num 60) (Num 60)) (Num 1)) = Num 1 \<and>
   (0 :: real) < 1 \<and>
   fdiv exact (Num (5 / 2)) (Num 1) = Num (5 / 2) \<and>
   \<bar>(5 / 2 :: real) - (5 / 2) / 1\<bar> \<le> 0 * ((5 / 2) / 1) \<and>
   fmul exact (Num (real_of_int \<lfloor>5 / 2 :: real\<rfloor>)) (Num 1) = Num 2 \<and>
   \<bar>(2 :: real) - real_of_int \<lfloor>5 / 2 :: real\<rfloor> * 1\<bar> \<le> 0 * (real_of_int \<lfloor>5 / 2 :: real\<rfloor> * 1) \<and>
   - (2 ^ 31) \<le> \<lfloor>5 / 2 :: real\<rfloor> + 0 \<and> \<lfloor>5 / 2 :: real\<rfloor> + 0 < 2 ^ 31 \<and>
   \<lparr>x = 0, y = 1\<rparr> = getZOrderCoordinates (Num (real_of_int (\<lfloor>5 / 2 :: real\<rfloor> + 0))) \<and>
   interleave (Num (real_of_int (x \<lparr>x = 0, y = 1\<rparr>))) (Num (real_of_int (y \<lparr>x = 0, y = 1\<rparr>)))
     = Num (real_of_int (\<lfloor>5 / 2 :: real\<rfloor> + 0)) \<and>
   getTimeForCanvasClick exact (Num (real_of_int (x \<lparr>x = 0, y = 1\<rparr>)))
       (Num (real_of_int (y \<lparr>x = 0, y = 1\<rparr>))) (Num 60) (Num 1) (Num (real_of_int 0)) (Num 10)
     = Some (Num 2) \<and>
   - (2 * 0 + 0\<^sup>2) * (5 / 2 :: real) \<le> 5 / 2 - 2 \<and>
   (5 / 2 :: real) - 2 < 1 * ((real_of_int \<lfloor>5 / 2 :: real\<rfloor> + 1) / (1 - 0)
                               - real_of_int \<lfloor>5 / 2 :: real\<rfloor> * (1 - 0))"
proof -
  have h1: "getCanvasPositionForTime exact (Num (5 / 2)) (Num 60) (Num 1) (Num 2) (Num (real_of_int 0))
     = Some \<lparr>x = 0, y = 1\<rparr>"
    by (simp add: getCanvasPositionForTime_def falsy_def Let_def getZOrderCoordinates_def
          getZOrderCoordinates_loop.simps toInt32_def exact_def)
  have h2: "fdiv exact (Num 1) (fmul exact (fdiv exact (Num 60) (Num 60)) (Num 1)) = Num 1"
    by (simp add: exact_def)
  have h3: "(0 :: real) < 1" by simp
  have h4: "fdiv exact (Num (5 / 2)) (Num 1) = Num (5 / 2)" by (simp add: exact_def)
  have h5: "\<bar>(5 / 2 :: real) - (5 / 2) / 1\<bar> \<le> 0 * ((5 / 2) / 1)" by simp
  have fl: "\<lfloor>5 / 2 :: real\<rfloor> = 2" by simp
  have h6: "fmul exact (Num (real_of_int \<lfloor>5 / 2 :: real\<rfloor>)) (Num 1) = Num 2"
    unfolding fl by (simp add: exact_def)
  have h7: "\<bar>(2 :: real) - real_of_int \<lfloor>5 / 2 :: real\<rfloor> * 1\<bar>
              \<le> 0 * (real_of_int \<lfloor>5 / 2 :: real\<rfloor> * 1)"
    unfolding fl by simp
  have h8: "fadd exact (Num (real_of_int \<lfloor>5 / 2 :: real\<rfloor>)) (Num (real_of_int 0))
              = Num (real_of_int (\<lfloor>5 / 2 :: real\<rfloor> + 0))"
    by (simp add: exact_def)
  have h9: "fsub exact (Num (real_of_int (\<lfloor>5 / 2 :: real\<rfloor> + 0))) (Num (real_of_int 0))
              = Num (real_of_int \<lfloor>5 / 2 :: real\<rfloor>)"
    by (simp add: exact_def)
  have h10: "- (2 ^ 31) \<le> \<lfloor>5 / 2 :: real\<rfloor> + 0 \<and> \<lfloor>5 / 2 :: real\<rfloor> + 0 < 2 ^ 31"
    unfolding fl by simp
  have h11: "(0 :: real) \<le> 5 / 2 \<and> (0 :: real) \<le> 0 \<and> (0 :: real) < 1" by simp
  have v: "(if nlt (Num 10) (Num 2) then None else Some (Num 2)) = Some (Num 2)" by simp
  from time_coordinate_roundtrip [of exact "5 / 2" "Num 60" "Num 1" "Num 2" 0
         "\<lparr>x = 0, y = 1\<rparr>" 1 "5 / 2" 0 2 "Num 10"] h1 h2 h3 h4 h5 h6 h7 h8 h9 h10 h11
  have "\<lparr>x = 0, y = 1\<rparr> = getZOrderCoordinates (Num (real_of_int (\<lfloor>5 / 2 :: real\<rfloor> + 0))) \<and>
     interleave (Num (real_of_int (x \<lparr>x = 0, y = 1\<rparr>))) (Num (real_of_int (y \<lparr>x = 0, y = 1\<rparr>)))
       = Num (real_of_int (\<lfloor>5 / 2 :: real\<rfloor> + 0)) \<and>
     getTimeForCanvasClick exact (Num (real_of_int (x \<lparr>x = 0, y = 1\<rparr>)))
         (Num (real_of_int (y \<lparr>x = 0, y = 1\<rparr>))) (Num 60) (Num 1) (Num (real_of_int 0)) (Num 10)
       = (if nlt (Num 10) (Num 2) then None else Some (Num 2)) \<and>
     - (2 * 0 + 0\<^sup>2) * (5 / 2 :: real) \<le> 5 / 2 - 2 \<and>
     (5 / 2 :: real) - 2 < 1 * ((real_of_int \<lfloor>5 / 2 :: real\<rfloor> + 1) / (1 - 0)
                                 - real_of_int \<lfloor>5 / 2 :: real\<rfloor> * (1 - 0))"
    by blast
  then have "\<lparr>x = 0, y = 1\<rparr> = getZOrderCoordinates (Num (real_of_int (\<lfloor>5 / 2 :: real\<rfloor> + 0))) \<and>
     interleave (Num (real_of_int (x \<lparr>x = 0, y = 1\<rparr>))) (Num (real_of_int (y \<lparr>x = 0, y = 1\<rparr>)))
       = Num (real_of_int (\<lfloor>5 / 2 :: real\<rfloor> + 0)) \<and>
     getTimeForCanvasClick exact (Num (real_of_int (x \<lparr>x = 0, y = 1\<rparr>)))
         (Num (real_of_int (y \<lparr>x = 0, y = 1\<rparr>))) (Num 60) (Num 1) (Num (real_of_int 0)) (Num 10)
       = Some (Num 2) \<and>
     - (2 * 0 + 0\<^sup>2) * (5 / 2 :: real) \<le> 5 / 2 - 2 \<and>
     (5 / 2 :: real) - 2 < 1 * ((real_of_int \<lfloor>5 / 2 :: real\<rfloor> + 1) / (1 - 0)
                                 - real_of_int \<lfloor>5 / 2 :: real\<rfloor> * (1 - 0))"
    unfolding v .
  with h1 h2 h3 h4 h5 h6 h7 h10 show ?thesis by blast
qed

end
